theory Spec2Isabelle
  imports Main "HOL-Library.Multiset"
begin

section \<open>The entry point of Include-Gardener (src/main.cpp)\<close>

subsection \<open>The parsed command line\<close>

text \<open>
  \<open>init_options\<close> hands \<open>argc\<close>/\<open>argv\<close> to boost::program_options and then only
  queries the resulting \<open>po::variables_map vm\<close>. The library is not part of the
  repository, so the embedding starts from what \<open>po::store\<close>/\<open>po::notify\<close> deliver:
  either the filled map, or the \<open>unknown_option\<close> exception that the \<open>try\<close> block
  catches (with its \<open>what()\<close> text), or any other exception, which nothing catches.

  \<open>vm.count("x")\<close> is 0 or 1; the flags without a value are booleans, the options
  with a value are \<open>Some v\<close> exactly when \<open>vm.count\<close> is 1. A \<open>process-path\<close> given
  positionally or with \<open>-P\<close> ends up in the same entry (\<open>pos.add("process-path", -1)\<close>).
  The two \<open>int\<close> options are only stored and compared with 0, never computed with,
  so their values are integers without a word size.
\<close>

record variables_map =
  vm_help :: bool
  vm_version :: bool
  vm_verbose :: bool
  vm_include_path :: "string list option"
  vm_out_file :: "string option"
  vm_format :: "string option"
  vm_process_path :: "string list option"
  vm_exclude :: "string list option"
  vm_recursive_limit :: "int option"
  vm_threads :: "int option"
  vm_language :: "string option"
  vm_config :: "string option"

datatype parse_result =
    Parsed variables_map
  | Unknown_option string
  | Other_exception

subsection \<open>The global \<open>opts\<close> and what the process does\<close>

record opts =
  no_threads :: int
  recursive_limit :: int
  language :: string
  config_path :: string
  format :: string
  include_paths :: "string list"
  process_paths :: "string list"
  exclude :: "string list"
  out_file :: string

text \<open>A piece streamed into a log record with \<open><<\<close>: a string or an \<open>int\<close>.\<close>

datatype item = S string | I int

text \<open>
  Everything \<open>main\<close> does that is visible from outside, in program order: text on
  \<open>cout\<close> and \<open>cerr\<close>, trace records that pass the log filter, and the calls into
  the components declared in config.h and file_detector.h.
\<close>

datatype 'rules event =
    Cout string
  | Cerr string
  | Log_trace "item list"
  | Get_cfg string
  | Supports_language string
  | Get_file_detection string
  | File_Detector_new 'rules "string list" "string list" int
  | File_Detector_get

record 'rules world =
  opts :: opts
  log_filter_warning :: bool
  out :: "'rules event list"

text \<open>
  What \<open>main.cpp\<close> uses and does not define: the two macros of the build
  (\<open>_GARDENER_VERSION\<close>, \<open>_GARDENER_CONFIG_PATH\<close>), the text boost prints for the
  options description \<open>desc\<close>, \<open>boost::filesystem::exists\<close>, and the \<open>Config\<close> class
  (\<open>Config::get_cfg\<close>, \<open>supports_language\<close>, \<open>get_file_detection\<close>, \<open>operator<<\<close>).
\<close>

record ('cfg, 'rules) env =
  GARDENER_VERSION :: string
  GARDENER_CONFIG_PATH :: string
  desc :: string
  fs_exists :: "string \<Rightarrow> bool"
  get_cfg :: "string \<Rightarrow> 'cfg"
  supports_language :: "'cfg \<Rightarrow> string \<Rightarrow> bool"
  get_file_detection :: "'cfg \<Rightarrow> string \<Rightarrow> 'rules"
  cfg_text :: "'cfg \<Rightarrow> string"

text \<open>A function either returns its \<open>int\<close> or is left by an exception nobody catches.\<close>

datatype outcome = Returned int | Uncaught

text \<open>
  \<open>opts\<close> is a global without initialiser: zero-initialised integers, empty strings
  and vectors. No log filter is installed when the process starts.
\<close>

definition opts0 :: opts where
  "opts0 = \<lparr>no_threads = 0, recursive_limit = 0, language = [], config_path = [],
            format = [], include_paths = [], process_paths = [], exclude = [],
            out_file = []\<rparr>"

definition world0 :: "'rules world" where
  "world0 = \<lparr>opts = opts0, log_filter_warning = False, out = []\<rparr>"

definition endl :: string where
  "endl = [CHR 0x0A]"

definition emit :: "'rules event \<Rightarrow> 'rules world \<Rightarrow> 'rules world" where
  "emit e w = w\<lparr>out := out w @ [e]\<rparr>"

text \<open>
  \<open>BOOST_LOG_TRIVIAL(trace) << ...\<close>: the record is dropped once the filter
  \<open>severity >= warning\<close> is set.
\<close>

definition log_trace :: "item list \<Rightarrow> 'rules world \<Rightarrow> 'rules world" where
  "log_trace xs w = (if log_filter_warning w then w else emit (Log_trace xs) w)"

subsection \<open>\<open>::tolower\<close> in the "C" locale\<close>

text \<open>
  \<open>main\<close> never calls \<open>setlocale\<close>, so \<open>::tolower\<close> is that of the "C" locale: the
  letters \<open>A\<close> to \<open>Z\<close> go to \<open>a\<close> to \<open>z\<close>, every other byte stays.
\<close>

definition isupper :: "char \<Rightarrow> bool" where
  "isupper c = (65 \<le> (of_char c :: nat) \<and> (of_char c :: nat) \<le> 90)"

definition tolower :: "char \<Rightarrow> char" where
  "tolower c = (if isupper c then char_of ((of_char c :: nat) + 32) else c)"

subsection \<open>\<open>init_options\<close>\<close>

definition set_defaults :: "('cfg, 'rules) env \<Rightarrow> 'rules world \<Rightarrow> 'rules world" where
  "set_defaults E w =
     w\<lparr>opts := (opts w)\<lparr>no_threads := 2, recursive_limit := - 1, language := ''c'',
                          config_path := GARDENER_CONFIG_PATH E, format := ''dot'',
                          out_file := []\<rparr>\<rparr>"

text \<open>
  The blocks \<open>if (true == vm.count("x")) { opts.x = vm["x"].as<...>(); }\<close>, one
  definition each, in the order of the source.
\<close>

definition read_exclude :: "variables_map \<Rightarrow> 'rules world \<Rightarrow> 'rules world" where
  "read_exclude vm w =
     (case vm_exclude vm of Some ex \<Rightarrow> w\<lparr>opts := (opts w)\<lparr>exclude := ex\<rparr>\<rparr> | None \<Rightarrow> w)"

definition read_config :: "variables_map \<Rightarrow> 'rules world \<Rightarrow> 'rules world" where
  "read_config vm w =
     (case vm_config vm of Some c \<Rightarrow> w\<lparr>opts := (opts w)\<lparr>config_path := c\<rparr>\<rparr> | None \<Rightarrow> w)"

text \<open>The language is lower-cased in place with \<open>std::transform(..., ::tolower)\<close>.\<close>

definition read_language :: "variables_map \<Rightarrow> 'rules world \<Rightarrow> 'rules world" where
  "read_language vm w =
     (case vm_language vm of
        Some l \<Rightarrow> w\<lparr>opts := (opts w)\<lparr>language := map tolower l\<rparr>\<rparr>
      | None \<Rightarrow> w)"

definition read_format :: "variables_map \<Rightarrow> 'rules world \<Rightarrow> 'rules world" where
  "read_format vm w =
     (case vm_format vm of Some f \<Rightarrow> w\<lparr>opts := (opts w)\<lparr>format := f\<rparr>\<rparr> | None \<Rightarrow> w)"

definition read_threads :: "variables_map \<Rightarrow> 'rules world \<Rightarrow> 'rules world" where
  "read_threads vm w =
     (case vm_threads vm of Some t \<Rightarrow> w\<lparr>opts := (opts w)\<lparr>no_threads := t\<rparr>\<rparr> | None \<Rightarrow> w)"

definition read_recursive_limit :: "variables_map \<Rightarrow> 'rules world \<Rightarrow> 'rules world" where
  "read_recursive_limit vm w =
     (case vm_recursive_limit vm of
        Some r \<Rightarrow> w\<lparr>opts := (opts w)\<lparr>recursive_limit := r\<rparr>\<rparr>
      | None \<Rightarrow> w)"

definition read_include_path :: "variables_map \<Rightarrow> 'rules world \<Rightarrow> 'rules world" where
  "read_include_path vm w =
     (case vm_include_path vm of
        Some ip \<Rightarrow> w\<lparr>opts := (opts w)\<lparr>include_paths := ip\<rparr>\<rparr>
      | None \<Rightarrow> w)"

definition read_out_file :: "variables_map \<Rightarrow> 'rules world \<Rightarrow> 'rules world" where
  "read_out_file vm w =
     (case vm_out_file vm of Some f \<Rightarrow> w\<lparr>opts := (opts w)\<lparr>out_file := f\<rparr>\<rparr> | None \<Rightarrow> w)"

text \<open>
  \<open>init_options\<close> from the check of the config file on (lines 166 to 215), entered
  with the process paths \<open>pp\<close> that line 209 reads from \<open>vm\<close>.
\<close>

definition init_options_rest ::
  "('cfg, 'rules) env \<Rightarrow> variables_map \<Rightarrow> string list \<Rightarrow> 'rules world
     \<Rightarrow> outcome \<times> 'rules world" where
  "init_options_rest E vm pp w4 =
    (if \<not> fs_exists E (config_path (opts w4)) then
       (Returned (- 1),
        emit (Cerr (''Error: config file '' @ config_path (opts w4)
                    @ '' not found.'' @ endl)) w4)
     else
      (let w7 = read_threads vm (read_format vm (read_language vm w4))
       in if vm_threads vm \<noteq> None \<and> no_threads (opts w7) = 0 then
            (Returned (- 1),
             emit (Cerr (''Error: Number of threads is set to 0, which is not allowed.''
                         @ endl @ ''Please use at least one worker thread.'' @ endl)) w7)
          else
           (let w8 = read_recursive_limit vm w7
            in if \<not> (format (opts w8) = [] \<or> format (opts w8) = ''dot''
                      \<or> format (opts w8) = ''xml'' \<or> format (opts w8) = ''graphml'') then
                 (Returned (- 1),
                  emit (Cerr (''Unrecognized format: '' @ format (opts w8) @ endl
                              @ endl @ desc E @ endl)) w8)
               else
                (let w9 = read_include_path vm w8;
                     w10 = w9\<lparr>opts := (opts w9)\<lparr>process_paths := pp\<rparr>\<rparr>
                 in (Returned 0, read_out_file vm w10)))))"

definition init_options ::
  "('cfg, 'rules) env \<Rightarrow> parse_result \<Rightarrow> 'rules world \<Rightarrow> outcome \<times> 'rules world" where
  "init_options E cmd w0 =
    (let w1 = set_defaults E w0 in
     case cmd of
       Other_exception \<Rightarrow> (Uncaught, w1)
     | Unknown_option what \<Rightarrow> (Returned (- 1), emit (Cerr (what @ endl)) w1)
     | Parsed vm \<Rightarrow>
        if vm_help vm then (Returned 1, emit (Cout (desc E @ endl)) w1)
        else if vm_version vm then
          (Returned (- 1),
           emit (Cout (''Include Gardener Version '' @ GARDENER_VERSION E @ endl)) w1)
        else (case vm_process_path vm of
          None \<Rightarrow>
            (Returned (- 1),
             emit (Cerr (''No input provided!'' @ endl @ endl @ desc E @ endl)) w1)
        | Some pp \<Rightarrow>
           (let w2 = (if \<not> vm_verbose vm then w1\<lparr>log_filter_warning := True\<rparr> else w1)
            in init_options_rest E vm pp (read_config vm (read_exclude vm w2)))))"

subsection \<open>The function that logs the options\<close>

text \<open>
  The source calls it like the Isabelle command that prints the system options, so
  here its name is shortened to \<open>print_opts\<close>.
\<close>

definition print_opts :: "'rules world \<Rightarrow> 'rules world" where
  "print_opts w =
    (let os = opts w;
         w = log_trace [S ''no_threads:      '', I (no_threads os)] w;
         w = log_trace [S ''recursive_limit: '', I (recursive_limit os)] w;
         w = log_trace [S ''language:        '', S (language os)] w;
         w = log_trace [S ''config_path:     '', S (config_path os)] w;
         w = log_trace [S ''format:          '', S (format os)] w;
         w = log_trace [S ''out_file:        '', S (out_file os)] w;
         w = log_trace [S ''include_paths:   ''] w;
         w = fold (\<lambda>p. log_trace [S ''    '', S p]) (include_paths os) w;
         w = log_trace [S ''process_paths:   ''] w;
         w = fold (\<lambda>p. log_trace [S ''    '', S p]) (process_paths os) w;
         w = log_trace [S ''exclude:         ''] w;
         w = fold (\<lambda>e. log_trace [S ''    '', S e]) (exclude os) w
     in w)"

subsection \<open>\<open>main\<close>\<close>

text \<open>
  The local \<open>Graph g\<close> is default-constructed in the first line of \<open>main\<close> and never
  mentioned again, so it does not appear in the events.
\<close>

definition main :: "('cfg, 'rules) env \<Rightarrow> parse_result \<Rightarrow> outcome \<times> 'rules world" where
  "main E cmd =
    (case init_options E cmd world0 of
       (Uncaught, w) \<Rightarrow> (Uncaught, w)
     | (Returned ret_val, w) \<Rightarrow>
        if ret_val \<noteq> 0 then (Returned ret_val, w)
        else
         (let w1 = print_opts w;
              w2 = emit (Get_cfg (config_path (opts w1))) w1;
              config = get_cfg E (config_path (opts w2));
              w3 = emit (Supports_language (language (opts w2))) w2
          in if \<not> supports_language E config (language (opts w3)) then
               (Returned (- 1),
                emit (Cerr (''Error: Language '' @ language (opts w3)
                            @ '' not supported.'' @ endl)) w3)
             else
              (let w4 = log_trace [S (cfg_text E config)] w3;
                   w5 = emit (Get_file_detection (language (opts w4))) w4;
                   w6 = emit (File_Detector_new
                                (get_file_detection E config (language (opts w5)))
                                (exclude (opts w5)) (process_paths (opts w5))
                                (recursive_limit (opts w5))) w5;
                   w7 = emit File_Detector_get w6
               in (Returned 0, w7))))"

subsection \<open>Classifying events\<close>

fun is_log :: "'rules event \<Rightarrow> bool" where
  "is_log (Log_trace _) = True"
| "is_log _ = False"

fun is_detector_event :: "'rules event \<Rightarrow> bool" where
  "is_detector_event (File_Detector_new _ _ _ _) = True"
| "is_detector_event File_Detector_get = True"
| "is_detector_event _ = False"

fun is_config_event :: "'rules event \<Rightarrow> bool" where
  "is_config_event (Get_cfg _) = True"
| "is_config_event (Supports_language _) = True"
| "is_config_event (Get_file_detection _) = True"
| "is_config_event _ = False"

subsection \<open>A concrete environment and command lines\<close>

text \<open>
  An installation to run \<open>main\<close> in: the config file \<open>gardener.conf\<close> exists and
  nothing else is asked about, the configuration knows the languages \<open>c\<close> and
  \<open>python\<close>, a configuration is identified with its path and a rule set with the
  name of its language.
\<close>

definition example_env :: "(string, string) env" where
  "example_env =
     \<lparr>GARDENER_VERSION = ''1.0.0'', GARDENER_CONFIG_PATH = ''gardener.conf'',
      desc = ''Options'', fs_exists = (\<lambda>p. p = ''gardener.conf''),
      get_cfg = (\<lambda>p. p), supports_language = (\<lambda>c l. l = ''c'' \<or> l = ''python''),
      get_file_detection = (\<lambda>c l. l), cfg_text = (\<lambda>c. c)\<rparr>"

text \<open>The command line without any argument.\<close>

definition vm_none :: variables_map where
  "vm_none =
     \<lparr>vm_help = False, vm_version = False, vm_verbose = False, vm_include_path = None,
      vm_out_file = None, vm_format = None, vm_process_path = None, vm_exclude = None,
      vm_recursive_limit = None, vm_threads = None, vm_language = None, vm_config = None\<rparr>"

definition vm_src :: variables_map where
  "vm_src = vm_none\<lparr>vm_process_path := Some [''src'']\<rparr>"

definition vm_upper_case_language :: variables_map where
  "vm_upper_case_language = vm_src\<lparr>vm_language := Some ''C''\<rparr>"

definition vm_unsupported_language :: variables_map where
  "vm_unsupported_language = vm_src\<lparr>vm_language := Some ''D''\<rparr>"

definition vm_missing_config :: variables_map where
  "vm_missing_config = vm_src\<lparr>vm_config := Some ''missing.conf''\<rparr>"

definition vm_help_only :: variables_map where
  "vm_help_only = vm_none\<lparr>vm_help := True\<rparr>"

definition vm_version_only :: variables_map where
  "vm_version_only = vm_none\<lparr>vm_version := True\<rparr>"

definition vm_help_version :: variables_map where
  "vm_help_version = vm_none\<lparr>vm_help := True, vm_version := True\<rparr>"

definition vm_threads_include :: variables_map where
  "vm_threads_include =
     vm_src\<lparr>vm_threads := Some 8, vm_include_path := Some [''/usr/include'']\<rparr>"

definition vm_out_file_format :: variables_map where
  "vm_out_file_format = vm_src\<lparr>vm_out_file := Some ''graph.dot'', vm_format := Some ''dot''\<rparr>"

definition vm_negative_threads :: variables_map where
  "vm_negative_threads = vm_src\<lparr>vm_threads := Some (- 1)\<rparr>"

definition vm_help_bad_configuration :: variables_map where
  "vm_help_bad_configuration =
     vm_none\<lparr>vm_help := True, vm_language := Some ''D'', vm_config := Some ''missing.conf''\<rparr>"

section \<open>The scanning core, as the specification describes it\<close>

text \<open>
  \<open>main.cpp\<close> only calls the scanning core: the sources of \<open>File_Detector\<close>, of the
  parser and of the graph are not part of the files at hand. What is proved about them
  is proved about the following definitions, which follow the specification.
\<close>

subsection \<open>Resolution of a reference\<close>

text \<open>
  Modelled from the spec: the file system that the parser (not under src/) consults.
  The spec speaks of \<open>dir + R\<close> existing as a regular file, of the directory containing
  \<open>F\<close> and of canonicalising the result, and leaves all four to the platform, so they
  are the components of the file system.
\<close>

record filesystem =
  is_regular_file :: "string \<Rightarrow> bool"
  canonicalize :: "string \<Rightarrow> string"
  parent_path :: "string \<Rightarrow> string"
  append_path :: "string \<Rightarrow> string \<Rightarrow> string"

text \<open>
  Modelled from the spec: the result of resolving a reference in the parser (not under
  src/), a canonical path or the literal reference string of an unresolved target.
\<close>

datatype target = Resolved string | Unresolved string

text \<open>
  Modelled from the spec: the search of the parser (not under src/) through a list of
  directories, "the first directory where \<open>dir + R\<close> exists as a regular file wins;
  canonicalize the result".
\<close>

fun first_match :: "filesystem \<Rightarrow> string list \<Rightarrow> string \<Rightarrow> string option" where
  "first_match fs [] R = None"
| "first_match fs (dir # dirs) R =
     (if is_regular_file fs (append_path fs dir R)
      then Some (canonicalize fs (append_path fs dir R))
      else first_match fs dirs R)"

text \<open>
  Modelled from the spec: the parser's resolution (not under src/) of a quoted reference
  \<open>R\<close> from file \<open>F\<close>, "try, in order, (1) the directory containing \<open>F\<close>, (2) each
  configured include-search-path in configured order", and "if none match, the target
  is unresolved".
\<close>

definition resolve_quoted :: "filesystem \<Rightarrow> string list \<Rightarrow> string \<Rightarrow> string \<Rightarrow> target" where
  "resolve_quoted fs include_search_paths F R =
     (case first_match fs (parent_path fs F # include_search_paths) R of
        Some p \<Rightarrow> Resolved p
      | None \<Rightarrow> Unresolved R)"

text \<open>
  A file system to resolve in: the tree holds \<open>a/b.h\<close>, \<open>a/c.h\<close>, \<open>inc/c.h\<close> and
  \<open>inc/d.h\<close> below \<open>/root\<close>.
\<close>

definition example_fs :: filesystem where
  "example_fs =
     \<lparr>is_regular_file = (\<lambda>p. p = ''a/b.h'' \<or> p = ''a/c.h'' \<or> p = ''inc/c.h'' \<or> p = ''inc/d.h''),
      canonicalize = (\<lambda>p. ''/root/'' @ p),
      parent_path = (\<lambda>F. rev (tl (dropWhile (\<lambda>c. c \<noteq> CHR ''/'') (rev F)))),
      append_path = (\<lambda>dir R. dir @ ''/'' @ R)\<rparr>"

subsection \<open>The dependency graph\<close>

text \<open>
  Modelled from the spec: a \<open>FileNode\<close> of the graph (not under src/) apart from its
  key, "a language tag (absent for unresolved placeholders), and a resolved/unresolved
  flag".
\<close>

record node_kind =
  language_tag :: "string option"
  resolved :: bool

text \<open>
  Modelled from the spec: an \<open>IncludeEdge\<close> of the graph (not under src/) apart from
  its pair of nodes, "a multiplicity counter, and an occurrence list of (raw statement
  text, line number) pairs".
\<close>

record include_edge =
  multiplicity :: nat
  occurrences :: "(string \<times> nat) list"

text \<open>
  Modelled from the spec: the \<open>DependencyGraph\<close> (not under src/). Node identity is
  the key, edge identity is the ordered pair of source and target.
\<close>

record dependency_graph =
  nodes :: "string \<rightharpoonup> node_kind"
  edges :: "(string \<times> string) \<rightharpoonup> include_edge"

text \<open>Modelled from the spec: the graph (not under src/) is "created empty".\<close>

definition empty_graph :: dependency_graph where
  "empty_graph = \<lparr>nodes = Map.empty, edges = Map.empty\<rparr>"

text \<open>
  Modelled from the spec: \<open>get_or_create_node(key, kind)\<close> of the graph (not under
  src/), "idempotent; identical key always yields the same handle".
\<close>

definition get_or_create_node ::
  "string \<Rightarrow> node_kind \<Rightarrow> dependency_graph \<Rightarrow> dependency_graph" where
  "get_or_create_node key kind g =
     (case nodes g key of
        Some _ \<Rightarrow> g
      | None \<Rightarrow> g\<lparr>nodes := (nodes g)(key \<mapsto> kind)\<rparr>)"

text \<open>
  Modelled from the spec: \<open>add_edge(source, target, raw_statement, line_no)\<close> of the
  graph (not under src/), which "creates the edge with multiplicity 1 and a one-element
  occurrence list if absent; otherwise increments multiplicity and appends the
  occurrence".
\<close>

definition add_edge ::
  "string \<Rightarrow> string \<Rightarrow> string \<Rightarrow> nat \<Rightarrow> dependency_graph \<Rightarrow> dependency_graph" where
  "add_edge source target raw_statement line_no g =
     (case edges g (source, target) of
        None \<Rightarrow>
          g\<lparr>edges := (edges g)((source, target) \<mapsto>
                \<lparr>multiplicity = 1, occurrences = [(raw_statement, line_no)]\<rparr>)\<rparr>
      | Some e \<Rightarrow>
          g\<lparr>edges := (edges g)((source, target) \<mapsto>
                \<lparr>multiplicity = multiplicity e + 1,
                 occurrences = occurrences e @ [(raw_statement, line_no)]\<rparr>)\<rparr>)"

text \<open>
  Modelled from the spec: what the parser (not under src/) does to the graph for one
  file, as a list of indivisible operations: the creation of a node, and the composite
  "find-or-create target node, then find-or-create edge and increment multiplicity,
  then append occurrence".
\<close>

datatype graph_op =
    Create_node string node_kind
  | Insert_edge string string node_kind string nat

text \<open>
  Modelled from the spec: the effect of one indivisible operation of the parser (not
  under src/) on the graph.
\<close>

fun apply_op :: "graph_op \<Rightarrow> dependency_graph \<Rightarrow> dependency_graph" where
  "apply_op (Create_node key kind) g = get_or_create_node key kind g"
| "apply_op (Insert_edge source target kind raw_statement line_no) g =
     add_edge source target raw_statement line_no (get_or_create_node target kind g)"

text \<open>
  Modelled from the spec: the content of a finished graph (not under src/), "which
  nodes and edges exist, with what multiplicity and occurrence sets": the set of node
  keys and, for every existing edge, its multiplicity and its occurrences without
  their order.
\<close>

definition content ::
  "dependency_graph \<Rightarrow>
     string set \<times> ((string \<times> string) \<Rightarrow> (nat \<times> (string \<times> nat) multiset) option)" where
  "content g =
     (dom (nodes g),
      \<lambda>e. map_option (\<lambda>x. (multiplicity x, mset (occurrences x))) (edges g e))"

text \<open>
  Auxiliary, for the proofs: the change that an operation makes to the content of a
  graph.
\<close>

fun content_op ::
  "graph_op \<Rightarrow> string set \<times> ((string \<times> string) \<Rightarrow> (nat \<times> (string \<times> nat) multiset) option)
     \<Rightarrow> string set \<times> ((string \<times> string) \<Rightarrow> (nat \<times> (string \<times> nat) multiset) option)" where
  "content_op (Create_node key kind) (K, E) = (insert key K, E)"
| "content_op (Insert_edge s t kind raw ln) (K, E) =
     (insert t K,
      E((s, t) \<mapsto> (case E (s, t) of None \<Rightarrow> (1, {#(raw, ln)#})
                       | Some (m, occ) \<Rightarrow> (m + 1, add_mset (raw, ln) occ))))"

subsection \<open>The worker pool\<close>

text \<open>
  Modelled from the spec: the state of the scheduling in \<open>File_Detector\<close> (not under
  src/): the queue of scheduled files in the order of the traversal, each file being
  the list of operations that parsing it performs; for every worker thread the
  operations it still has to perform on its current file (none when it waits on the
  queue); and the shared graph.

  The traversal thread is the only producer and adds the files in this order. Here
  they are all in the queue from the start: a worker that would find the queue still
  empty is a worker that takes its step later, so every order in which the workers
  of the specification can take files and operate on the graph is one of the
  schedules below.
\<close>

record pool =
  queue :: "graph_op list list"
  workers :: "graph_op list list"
  shared :: dependency_graph

text \<open>
  Modelled from the spec: the start of a run of \<open>File_Detector\<close> (not under src/) with
  \<open>n\<close> worker threads, all waiting, and an empty graph.
\<close>

definition start :: "nat \<Rightarrow> graph_op list list \<Rightarrow> pool" where
  "start n jobs = \<lparr>queue = jobs, workers = replicate n [], shared = empty_graph\<rparr>"

text \<open>
  Modelled from the spec: one step of worker \<open>i\<close> of \<open>File_Detector\<close> (not under
  src/). A worker with a file in hand performs its next operation on the shared graph,
  indivisibly; a waiting worker takes the next file from the queue; a waiting worker
  at an empty queue has nothing to do.
\<close>

definition step :: "nat \<Rightarrow> pool \<Rightarrow> pool" where
  "step i p =
     (if i < length (workers p) then
        (case workers p ! i of
           x # rest \<Rightarrow> p\<lparr>workers := (workers p)[i := rest], shared := apply_op x (shared p)\<rparr>
         | [] \<Rightarrow>
            (case queue p of
               job # q \<Rightarrow> p\<lparr>queue := q, workers := (workers p)[i := job]\<rparr>
             | [] \<Rightarrow> p))
      else p)"

text \<open>
  Modelled from the spec: the condition on which the call into \<open>File_Detector\<close> (not
  under src/) returns, the queue drained and "every worker has finished its current
  job".
\<close>

definition finished :: "pool \<Rightarrow> bool" where
  "finished p = (queue p = [] \<and> concat (workers p) = [])"

text \<open>
  Modelled from the spec: a run of \<open>File_Detector\<close> (not under src/) with \<open>n\<close> worker
  threads under a scheduling order, given as the list of the workers in the order in
  which they take their steps. The run yields the graph when it is finished then.
\<close>

definition run :: "nat \<Rightarrow> graph_op list list \<Rightarrow> nat list \<Rightarrow> dependency_graph option" where
  "run n jobs schedule =
     (let p = fold step schedule (start n jobs)
      in if finished p then Some (shared p) else None)"

text \<open>
  Auxiliary, for the proofs: the operations that are still to be performed in a state
  of the pool.
\<close>

definition pending :: "pool \<Rightarrow> graph_op multiset" where
  "pending p = mset (concat (workers p)) + mset (concat (queue p))"

text \<open>
  Auxiliary, for the proofs: the number of steps that one worker alone needs for a list
  of files.
\<close>

fun sequential_steps :: "graph_op list list \<Rightarrow> nat" where
  "sequential_steps [] = 0"
| "sequential_steps (job # q) = Suc (length job) + sequential_steps q"

text \<open>
  Two files that include the same header, the second one twice, and two scheduling
  orders for them: one worker alone, and two workers taking turns.
\<close>

definition c_file :: node_kind where
  "c_file = \<lparr>language_tag = Some ''c'', resolved = True\<rparr>"

definition example_jobs :: "graph_op list list" where
  "example_jobs =
     [[Create_node ''/root/a.c'' c_file,
       Insert_edge ''/root/a.c'' ''/root/common.h'' c_file ''#include <common.h>'' 1],
      [Create_node ''/root/b.c'' c_file,
       Insert_edge ''/root/b.c'' ''/root/common.h'' c_file ''#include <common.h>'' 1,
       Insert_edge ''/root/b.c'' ''/root/common.h'' c_file ''#include <common.h>'' 7]]"

definition one_worker_schedule :: "nat list" where
  "one_worker_schedule = [0, 0, 0, 0, 0, 0, 0]"

definition two_worker_schedule :: "nat list" where
  "two_worker_schedule = [0, Suc 0, Suc 0, 0, Suc 0, 0, Suc 0]"

section \<open>Properties of the entry point\<close>

subsection \<open>Auxiliary facts\<close>

lemmas read_defs = read_exclude_def read_config_def read_language_def read_format_def
  read_threads_def read_recursive_limit_def read_include_path_def read_out_file_def

lemma read_out:
  "out (read_exclude vm w) = out w" "out (read_config vm w) = out w"
  "out (read_language vm w) = out w" "out (read_format vm w) = out w"
  "out (read_threads vm w) = out w" "out (read_recursive_limit vm w) = out w"
  "out (read_include_path vm w) = out w" "out (read_out_file vm w) = out w"
  by (simp_all add: read_defs split: option.split)

lemma read_filter:
  "log_filter_warning (read_exclude vm w) = log_filter_warning w"
  "log_filter_warning (read_config vm w) = log_filter_warning w"
  "log_filter_warning (read_language vm w) = log_filter_warning w"
  "log_filter_warning (read_format vm w) = log_filter_warning w"
  "log_filter_warning (read_threads vm w) = log_filter_warning w"
  "log_filter_warning (read_recursive_limit vm w) = log_filter_warning w"
  "log_filter_warning (read_include_path vm w) = log_filter_warning w"
  "log_filter_warning (read_out_file vm w) = log_filter_warning w"
  by (simp_all add: read_defs split: option.split)

lemma read_opts:
  "opts (read_exclude vm w) =
     (opts w)\<lparr>exclude := (case vm_exclude vm of Some ex \<Rightarrow> ex | None \<Rightarrow> exclude (opts w))\<rparr>"
  "opts (read_config vm w) =
     (opts w)\<lparr>config_path :=
        (case vm_config vm of Some c \<Rightarrow> c | None \<Rightarrow> config_path (opts w))\<rparr>"
  "opts (read_language vm w) =
     (opts w)\<lparr>language :=
        (case vm_language vm of Some l \<Rightarrow> map tolower l | None \<Rightarrow> language (opts w))\<rparr>"
  "opts (read_format vm w) =
     (opts w)\<lparr>format := (case vm_format vm of Some f \<Rightarrow> f | None \<Rightarrow> format (opts w))\<rparr>"
  "opts (read_threads vm w) =
     (opts w)\<lparr>no_threads :=
        (case vm_threads vm of Some t \<Rightarrow> t | None \<Rightarrow> no_threads (opts w))\<rparr>"
  "opts (read_recursive_limit vm w) =
     (opts w)\<lparr>recursive_limit :=
        (case vm_recursive_limit vm of Some r \<Rightarrow> r | None \<Rightarrow> recursive_limit (opts w))\<rparr>"
  "opts (read_include_path vm w) =
     (opts w)\<lparr>include_paths :=
        (case vm_include_path vm of Some ip \<Rightarrow> ip | None \<Rightarrow> include_paths (opts w))\<rparr>"
  "opts (read_out_file vm w) =
     (opts w)\<lparr>out_file := (case vm_out_file vm of Some f \<Rightarrow> f | None \<Rightarrow> out_file (opts w))\<rparr>"
  by (simp_all add: read_defs split: option.split)

lemma log_trace_props:
  "opts (log_trace xs w) = opts w"
  "log_filter_warning (log_trace xs w) = log_filter_warning w"
  "out (log_trace xs w) = out w @ (if log_filter_warning w then [] else [Log_trace xs])"
  by (simp_all add: log_trace_def emit_def)

lemma fold_log_trace_props:
  "opts (fold (\<lambda>p. log_trace (f p)) ps w) = opts w"
  "log_filter_warning (fold (\<lambda>p. log_trace (f p)) ps w) = log_filter_warning w"
  "out (fold (\<lambda>p. log_trace (f p)) ps w) =
     out w @ (if log_filter_warning w then [] else map (\<lambda>p. Log_trace (f p)) ps)"
  by (induction ps arbitrary: w) (simp_all add: log_trace_props)

lemma print_opts_props:
  "opts (print_opts w) = opts w"
  "log_filter_warning (print_opts w) = log_filter_warning w"
  "\<exists>ls. out (print_opts w) = out w @ ls \<and> (\<forall>e\<in>set ls. is_log e)"
  by (auto simp: print_opts_def Let_def log_trace_props fold_log_trace_props)

lemma log_trace_filtered: "log_filter_warning w \<Longrightarrow> log_trace xs w = w"
  by (simp add: log_trace_def)

lemma fold_log_trace_filtered:
  "log_filter_warning w \<Longrightarrow> fold (\<lambda>p. log_trace (f p)) ps w = w"
  by (induction ps) (simp_all add: log_trace_filtered)

lemma print_opts_filtered: "log_filter_warning w \<Longrightarrow> print_opts w = w"
  by (simp add: print_opts_def Let_def log_trace_filtered fold_log_trace_filtered)

lemma is_log_not_other: "is_log e \<Longrightarrow> \<not> is_detector_event e \<and> \<not> is_config_event e"
  by (cases e) simp_all

lemma not_isupper_tolower: "\<not> isupper (tolower c)"
  by (auto simp: isupper_def tolower_def)

lemma init_options_rest_out:
  "init_options_rest E vm pp w4 = (r, w) \<Longrightarrow>
     (r = Returned 0 \<and> out w = out w4) \<or>
     (\<exists>m. r = Returned (- 1) \<and> out w = out w4 @ [Cerr m])"
  by (auto simp: init_options_rest_def Let_def emit_def read_out split: if_splits)

lemma init_options_out:
  "init_options E cmd world0 = (r, w) \<Longrightarrow>
     (r = Returned 0 \<and> out w = []) \<or> (r = Uncaught \<and> out w = []) \<or>
     (\<exists>n m. r = Returned n \<and> n \<noteq> 0 \<and> (out w = [Cout m] \<or> out w = [Cerr m]))"
  by (auto simp: init_options_def Let_def set_defaults_def world0_def emit_def read_out
           split: parse_result.splits option.splits if_splits dest!: init_options_rest_out)

lemma init_options_not_parsed:
  "init_options E (Unknown_option m) w0 \<noteq> (Returned 0, w)"
  "init_options E Other_exception w0 \<noteq> (Returned 0, w)"
  by (simp_all add: init_options_def Let_def)

lemma init_options_parsed_returns:
  "init_options E (Parsed vm) w0 = (r, w) \<Longrightarrow> \<exists>n. r = Returned n"
  by (auto simp: init_options_def init_options_rest_def Let_def
           split: if_splits option.splits)

text \<open>Past \<open>--help\<close> and \<open>--version\<close>, a failing \<open>init_options\<close> returns -1 and has written to \<open>cerr\<close>.\<close>

lemma init_options_failure_cerr:
  assumes "\<not> vm_help vm" "\<not> vm_version vm"
    and "init_options E (Parsed vm) world0 = (r, w)" and "r \<noteq> Returned 0"
  shows "r = Returned (- 1) \<and> (\<exists>m. out w = [Cerr m])"
  using assms
  by (auto simp: init_options_def Let_def set_defaults_def world0_def emit_def read_out
           split: option.splits dest!: init_options_rest_out)

lemma init_options_config_missing:
  fixes E :: "('cfg, 'rules) env"
  assumes "\<not> vm_help vm" "\<not> vm_version vm" "vm_process_path vm \<noteq> None"
    and "\<not> fs_exists E (case vm_config vm of Some c \<Rightarrow> c | None \<Rightarrow> GARDENER_CONFIG_PATH E)"
  shows "fst (init_options E (Parsed vm) (world0 :: 'rules world)) = Returned (- 1)"
    "out (snd (init_options E (Parsed vm) (world0 :: 'rules world))) =
       [Cerr (''Error: config file ''
              @ (case vm_config vm of Some c \<Rightarrow> c | None \<Rightarrow> GARDENER_CONFIG_PATH E)
              @ '' not found.'' @ endl)]"
  using assms
  by (auto simp: init_options_def init_options_rest_def Let_def set_defaults_def world0_def
        opts0_def emit_def read_out read_opts split: option.splits cong: option.case_cong)

lemma init_options_no_process_path:
  assumes "vm_process_path vm = None"
  shows "init_options E (Parsed vm) w0 =
    (if vm_help vm then (Returned 1, emit (Cout (desc E @ endl)) (set_defaults E w0))
     else if vm_version vm then
       (Returned (- 1),
        emit (Cout (''Include Gardener Version '' @ GARDENER_VERSION E @ endl))
          (set_defaults E w0))
     else (Returned (- 1),
           emit (Cerr (''No input provided!'' @ endl @ endl @ desc E @ endl))
             (set_defaults E w0)))"
  by (simp add: init_options_def Let_def assms)

lemma init_options_help_version:
  "vm_help vm \<Longrightarrow>
     init_options E (Parsed vm) w0 = (Returned 1, emit (Cout (desc E @ endl)) (set_defaults E w0))"
  "\<not> vm_help vm \<Longrightarrow> vm_version vm \<Longrightarrow>
     init_options E (Parsed vm) w0 =
       (Returned (- 1),
        emit (Cout (''Include Gardener Version '' @ GARDENER_VERSION E @ endl))
          (set_defaults E w0))"
  by (simp_all add: init_options_def Let_def)

lemma out_emit_defaults: "out (emit e (set_defaults E world0)) = [e]"
  by (simp add: emit_def set_defaults_def world0_def)

lemma init_options_rest_ok:
  assumes "init_options_rest E vm pp w4 = (Returned 0, w)"
  shows "fs_exists E (config_path (opts w4))"
    "w = read_out_file vm
          ((read_include_path vm (read_recursive_limit vm (read_threads vm
              (read_format vm (read_language vm w4)))))
           \<lparr>opts := (opts (read_include_path vm (read_recursive_limit vm (read_threads vm
              (read_format vm (read_language vm w4))))))\<lparr>process_paths := pp\<rparr>\<rparr>)"
  using assms by (simp_all add: init_options_rest_def Let_def split: if_splits)

lemma init_options_ok_rest:
  assumes "init_options E (Parsed vm) w0 = (Returned 0, w)"
  shows "\<not> vm_help vm" "\<not> vm_version vm"
    "\<exists>pp. vm_process_path vm = Some pp \<and>
       init_options_rest E vm pp
         (read_config vm (read_exclude vm
            (if \<not> vm_verbose vm then (set_defaults E w0)\<lparr>log_filter_warning := True\<rparr>
             else set_defaults E w0))) = (Returned 0, w)"
  using assms by (simp_all add: init_options_def Let_def split: if_splits option.splits)

lemma init_options_ok:
  fixes E :: "('cfg, 'rules) env"
  assumes "init_options E (Parsed vm) world0 = (Returned 0, w)"
  shows "\<not> vm_help vm" "\<not> vm_version vm"
    "vm_process_path vm = Some (process_paths (opts w))"
    "config_path (opts w) = (case vm_config vm of Some c \<Rightarrow> c | None \<Rightarrow> GARDENER_CONFIG_PATH E)"
    "fs_exists E (config_path (opts w))"
    "language (opts w) = (case vm_language vm of Some l \<Rightarrow> map tolower l | None \<Rightarrow> ''c'')"
    "exclude (opts w) = (case vm_exclude vm of Some ex \<Rightarrow> ex | None \<Rightarrow> [])"
    "recursive_limit (opts w) = (case vm_recursive_limit vm of Some r \<Rightarrow> r | None \<Rightarrow> - 1)"
    "no_threads (opts w) = (case vm_threads vm of Some t \<Rightarrow> t | None \<Rightarrow> 2)"
    "include_paths (opts w) = (case vm_include_path vm of Some ip \<Rightarrow> ip | None \<Rightarrow> [])"
    "format (opts w) = (case vm_format vm of Some f \<Rightarrow> f | None \<Rightarrow> ''dot'')"
    "out_file (opts w) = (case vm_out_file vm of Some f \<Rightarrow> f | None \<Rightarrow> [])"
    "out w = []" "log_filter_warning w = (\<not> vm_verbose vm)"
proof -
  show "\<not> vm_help vm" "\<not> vm_version vm"
    using init_options_ok_rest(1,2)[OF assms] by simp_all
  define w2 where
    "w2 = (if \<not> vm_verbose vm then (set_defaults E world0)\<lparr>log_filter_warning := True\<rparr>
           else (set_defaults E world0 :: 'rules world))"
  obtain pp where pp: "vm_process_path vm = Some pp"
    and rest: "init_options_rest E vm pp (read_config vm (read_exclude vm w2)) = (Returned 0, w)"
    using init_options_ok_rest(3)[OF assms] unfolding w2_def by blast
  note ok = init_options_rest_ok[OF rest]
  have o2: "opts w2 = opts0\<lparr>no_threads := 2, recursive_limit := - 1, language := ''c'',
                          config_path := GARDENER_CONFIG_PATH E, format := ''dot'',
                          out_file := []\<rparr>"
    and f2: "log_filter_warning w2 = (\<not> vm_verbose vm)" and out2: "out w2 = []"
    by (simp_all add: w2_def set_defaults_def world0_def)
  have w: "opts w = \<lparr>no_threads = (case vm_threads vm of Some t \<Rightarrow> t | None \<Rightarrow> 2),
      recursive_limit = (case vm_recursive_limit vm of Some r \<Rightarrow> r | None \<Rightarrow> - 1),
      language = (case vm_language vm of Some l \<Rightarrow> map tolower l | None \<Rightarrow> ''c''),
      config_path = (case vm_config vm of Some c \<Rightarrow> c | None \<Rightarrow> GARDENER_CONFIG_PATH E),
      format = (case vm_format vm of Some f \<Rightarrow> f | None \<Rightarrow> ''dot''),
      include_paths = (case vm_include_path vm of Some ip \<Rightarrow> ip | None \<Rightarrow> []),
      process_paths = pp,
      exclude = (case vm_exclude vm of Some ex \<Rightarrow> ex | None \<Rightarrow> []),
      out_file = (case vm_out_file vm of Some f \<Rightarrow> f | None \<Rightarrow> [])\<rparr>"
    by (subst ok(2)) (simp add: read_opts o2 opts0_def cong: option.case_cong)
  show "vm_process_path vm = Some (process_paths (opts w))" by (simp add: w pp)
  show "config_path (opts w) = (case vm_config vm of Some c \<Rightarrow> c | None \<Rightarrow> GARDENER_CONFIG_PATH E)"
    by (simp add: w)
  show "fs_exists E (config_path (opts w))"
    using ok(1) by (simp add: w read_opts o2 cong: option.case_cong)
  show "language (opts w) = (case vm_language vm of Some l \<Rightarrow> map tolower l | None \<Rightarrow> ''c'')"
    "exclude (opts w) = (case vm_exclude vm of Some ex \<Rightarrow> ex | None \<Rightarrow> [])"
    "recursive_limit (opts w) = (case vm_recursive_limit vm of Some r \<Rightarrow> r | None \<Rightarrow> - 1)"
    "no_threads (opts w) = (case vm_threads vm of Some t \<Rightarrow> t | None \<Rightarrow> 2)"
    "include_paths (opts w) = (case vm_include_path vm of Some ip \<Rightarrow> ip | None \<Rightarrow> [])"
    "format (opts w) = (case vm_format vm of Some f \<Rightarrow> f | None \<Rightarrow> ''dot'')"
    "out_file (opts w) = (case vm_out_file vm of Some f \<Rightarrow> f | None \<Rightarrow> [])"
    by (simp_all add: w)
  show "out w = []" by (subst ok(2)) (simp add: read_out out2)
  show "log_filter_warning w = (\<not> vm_verbose vm)"
    by (subst ok(2)) (simp add: read_filter f2)
qed

lemma init_options_opts:
  fixes E :: "('cfg, 'rules) env"
  shows "vm_threads vm = None \<Longrightarrow>
           no_threads (opts (snd (init_options E (Parsed vm) (world0 :: 'rules world)))) = 2"
    "vm_recursive_limit vm = None \<Longrightarrow>
           recursive_limit (opts (snd (init_options E (Parsed vm) (world0 :: 'rules world)))) = - 1"
    "vm_language vm = None \<Longrightarrow>
           language (opts (snd (init_options E (Parsed vm) (world0 :: 'rules world)))) = ''c''"
    "vm_format vm = None \<Longrightarrow>
           format (opts (snd (init_options E (Parsed vm) (world0 :: 'rules world)))) = ''dot''"
    "vm_out_file vm = None \<Longrightarrow>
           out_file (opts (snd (init_options E (Parsed vm) (world0 :: 'rules world)))) = []"
  by (simp_all add: init_options_def init_options_rest_def Let_def set_defaults_def world0_def
        opts0_def emit_def read_opts split: option.split cong: option.case_cong)

lemma init_options_returns_0:
  fixes E :: "('cfg, 'rules) env"
  assumes "\<not> vm_help vm" "\<not> vm_version vm" "vm_process_path vm = Some pp"
    and "fs_exists E (case vm_config vm of Some c \<Rightarrow> c | None \<Rightarrow> GARDENER_CONFIG_PATH E)"
    and "vm_threads vm \<noteq> Some 0"
    and "case vm_format vm of None \<Rightarrow> True
         | Some f \<Rightarrow> f = [] \<or> f = ''dot'' \<or> f = ''xml'' \<or> f = ''graphml''"
  shows "fst (init_options E (Parsed vm) (world0 :: 'rules world)) = Returned 0"
  using assms
  by (auto simp add: init_options_def init_options_rest_def Let_def set_defaults_def world0_def
        opts0_def emit_def read_opts split: option.splits cong: option.case_cong)

text \<open>The one thread count that \<open>init_options\<close> rejects is 0.\<close>

lemma init_options_zero_threads:
  fixes E :: "('cfg, 'rules) env"
  assumes "vm_threads vm = Some 0"
  shows "fst (init_options E (Parsed vm) (world0 :: 'rules world)) \<noteq> Returned 0"
  using assms
  by (simp add: init_options_def init_options_rest_def Let_def read_opts
        split: option.split cong: option.case_cong)

lemma main_init_failed:
  "init_options E cmd world0 = (r, w) \<Longrightarrow> r \<noteq> Returned 0 \<Longrightarrow> main E cmd = (r, w)"
  by (cases r) (simp_all add: main_def)

lemma main_eq_init_on_failure:
  "fst (init_options E cmd world0) \<noteq> Returned 0 \<Longrightarrow> main E cmd = init_options E cmd world0"
  using main_init_failed[of E cmd "fst (init_options E cmd world0)" "snd (init_options E cmd world0)"]
  by simp

lemma main_init_ok:
  assumes "init_options E cmd world0 = (Returned 0, w)"
  shows "\<exists>ls ls'. (\<forall>e\<in>set ls. is_log e) \<and> (\<forall>e\<in>set ls'. is_log e) \<and>
     opts (snd (main E cmd)) = opts w \<and>
     (if supports_language E (get_cfg E (config_path (opts w))) (language (opts w))
      then fst (main E cmd) = Returned 0 \<and>
           out (snd (main E cmd)) =
             out w @ ls @ [Get_cfg (config_path (opts w)), Supports_language (language (opts w))]
             @ ls' @ [Get_file_detection (language (opts w)),
                      File_Detector_new
                        (get_file_detection E (get_cfg E (config_path (opts w)))
                           (language (opts w)))
                        (exclude (opts w)) (process_paths (opts w)) (recursive_limit (opts w)),
                      File_Detector_get]
      else fst (main E cmd) = Returned (- 1) \<and>
           out (snd (main E cmd)) =
             out w @ ls @ [Get_cfg (config_path (opts w)), Supports_language (language (opts w)),
                           Cerr (''Error: Language '' @ language (opts w)
                                 @ '' not supported.'' @ endl)])"
proof -
  obtain ls where ls: "out (print_opts w) = out w @ ls" "\<forall>e\<in>set ls. is_log e"
    using print_opts_props(3) by blast
  let ?cfg = "get_cfg E (config_path (opts w))"
  let ?ls' = "if log_filter_warning w then [] else [Log_trace [S (cfg_text E ?cfg)]]"
  show ?thesis
    apply (rule exI[of _ ls], rule exI[of _ ?ls'])
    using ls
    apply (simp add: main_def assms Let_def emit_def log_trace_props print_opts_props(1,2))
    done
qed

lemma main_supports_language_event:
  assumes "Supports_language l \<in> set (out (snd (main E cmd)))"
  shows "\<exists>vm w. cmd = Parsed vm \<and> init_options E cmd world0 = (Returned 0, w)
           \<and> l = language (opts w)"
proof -
  obtain r w where rw: "init_options E cmd world0 = (r, w)" by (cases "init_options E cmd world0")
  show ?thesis
  proof (cases "r = Returned 0")
    case False
    then have "main E cmd = (r, w)" using rw by (rule main_init_failed[rotated])
    with init_options_out[OF rw] assms False show ?thesis by auto
  next
    case True
    with rw have ok: "init_options E cmd world0 = (Returned 0, w)" by simp
    then obtain vm where vm: "cmd = Parsed vm"
      by (cases cmd) (auto simp: init_options_def Let_def)
    from main_init_ok[OF ok] obtain ls ls' where
      logs: "\<forall>e\<in>set ls. is_log e" "\<forall>e\<in>set ls'. is_log e" and
      o: "out (snd (main E cmd)) = out w @ ls @ [Get_cfg (config_path (opts w)),
             Supports_language (language (opts w))] @ ls' @ 
             [Get_file_detection (language (opts w)),
                      File_Detector_new
                        (get_file_detection E (get_cfg E (config_path (opts w)))
                           (language (opts w)))
                        (exclude (opts w)) (process_paths (opts w)) (recursive_limit (opts w)),
                      File_Detector_get]
        \<or> out (snd (main E cmd)) = out w @ ls @ [Get_cfg (config_path (opts w)),
             Supports_language (language (opts w)),
                           Cerr (''Error: Language '' @ language (opts w)
                                 @ '' not supported.'' @ endl)]"
      by (auto split: if_splits)
    have "out w = []" using init_options_ok(13)[OF ok[unfolded vm]] .
    moreover have "Supports_language l \<notin> set ls" "Supports_language l \<notin> set ls'"
      using logs by auto
    ultimately have "l = language (opts w)" using o assms by auto
    with vm ok show ?thesis by blast
  qed
qed

lemma file_detector_arguments:
  fixes E :: "('cfg, 'rules) env"
  assumes "File_Detector_new r ex pp rl \<in> set (out (snd (main E (Parsed vm))))"
  shows "r = get_file_detection E
               (get_cfg E (case vm_config vm of Some c \<Rightarrow> c | None \<Rightarrow> GARDENER_CONFIG_PATH E))
               (case vm_language vm of Some l \<Rightarrow> map tolower l | None \<Rightarrow> ''c'')"
    "ex = (case vm_exclude vm of Some ex \<Rightarrow> ex | None \<Rightarrow> [])"
    "vm_process_path vm = Some pp"
    "rl = (case vm_recursive_limit vm of Some r \<Rightarrow> r | None \<Rightarrow> - 1)"
proof -
  obtain r' w where rw: "init_options E (Parsed vm) world0 = (r', w)"
    by (cases "init_options E (Parsed vm) (world0 :: 'rules world)")
  have ok: "init_options E (Parsed vm) world0 = (Returned 0, w)"
  proof (rule ccontr)
    assume "init_options E (Parsed vm) world0 \<noteq> (Returned 0, w)"
    with rw have n: "r' \<noteq> Returned 0" by auto
    from main_init_failed[OF rw n] init_options_out[OF rw] assms show False by auto
  qed
  note f = init_options_ok[OF ok]
  from main_init_ok[OF ok] obtain ls ls' where
    logs: "\<forall>e\<in>set ls. is_log e" "\<forall>e\<in>set ls'. is_log e" and
    o: "out (snd (main E (Parsed vm))) =
          ls @ [Get_cfg (config_path (opts w)), Supports_language (language (opts w))] @ ls'
          @ [Get_file_detection (language (opts w)),
             File_Detector_new
               (get_file_detection E (get_cfg E (config_path (opts w))) (language (opts w)))
               (exclude (opts w)) (process_paths (opts w)) (recursive_limit (opts w)),
             File_Detector_get]
        \<or> out (snd (main E (Parsed vm))) =
          ls @ [Get_cfg (config_path (opts w)), Supports_language (language (opts w)),
                Cerr (''Error: Language '' @ language (opts w) @ '' not supported.'' @ endl)]"
    by (auto simp: f(13) split: if_splits)
  have "File_Detector_new r ex pp rl \<notin> set ls" "File_Detector_new r ex pp rl \<notin> set ls'"
    using logs by auto
  with o assms have e: "r = get_file_detection E (get_cfg E (config_path (opts w))) (language (opts w))"
    "ex = exclude (opts w)" "pp = process_paths (opts w)" "rl = recursive_limit (opts w)"
    by auto
  show "r = get_file_detection E
               (get_cfg E (case vm_config vm of Some c \<Rightarrow> c | None \<Rightarrow> GARDENER_CONFIG_PATH E))
               (case vm_language vm of Some l \<Rightarrow> map tolower l | None \<Rightarrow> ''c'')"
    "ex = (case vm_exclude vm of Some ex \<Rightarrow> ex | None \<Rightarrow> [])"
    "vm_process_path vm = Some pp"
    "rl = (case vm_recursive_limit vm of Some r \<Rightarrow> r | None \<Rightarrow> - 1)"
    using e f(3,4,6,7,8) by simp_all
qed

subsection \<open>Runs in the example installation\<close>

lemmas vm_defs = vm_unsupported_language_def vm_missing_config_def vm_help_only_def
  vm_version_only_def vm_help_version_def vm_threads_include_def vm_out_file_format_def
  vm_negative_threads_def vm_upper_case_language_def

lemmas init_defs = init_options_def init_options_rest_def example_env_def
  vm_none_def vm_src_def world0_def opts0_def set_defaults_def emit_def endl_def Let_def read_defs

lemmas main_defs = print_opts_filtered log_trace_filtered emit_def example_env_def Let_def endl_def

lemma tolower_C: "tolower CHR ''C'' = CHR ''c''"
  by code_simp

lemma tolower_D: "tolower CHR ''D'' = CHR ''d''"
  by code_simp

lemma init_src:
  "init_options example_env (Parsed vm_src) world0 =
     (Returned 0,
      \<lparr>opts = \<lparr>no_threads = 2, recursive_limit = - 1, language = ''c'',
                config_path = ''gardener.conf'', format = ''dot'', include_paths = [],
                process_paths = [''src''], exclude = [], out_file = []\<rparr>,
       log_filter_warning = True, out = []\<rparr>)"
  by (simp add: init_defs)

lemma main_src:
  "main example_env (Parsed vm_src) =
     (Returned 0,
      \<lparr>opts = \<lparr>no_threads = 2, recursive_limit = - 1, language = ''c'',
                config_path = ''gardener.conf'', format = ''dot'', include_paths = [],
                process_paths = [''src''], exclude = [], out_file = []\<rparr>,
       log_filter_warning = True,
       out = [Get_cfg ''gardener.conf'', Supports_language ''c'', Get_file_detection ''c'',
              File_Detector_new ''c'' [] [''src''] (- 1), File_Detector_get]\<rparr>)"
  unfolding main_def init_src by (simp add: main_defs)

lemma init_upper_case_language:
  "init_options example_env (Parsed vm_upper_case_language) world0 =
     (Returned 0,
      \<lparr>opts = \<lparr>no_threads = 2, recursive_limit = - 1, language = ''c'',
                config_path = ''gardener.conf'', format = ''dot'', include_paths = [],
                process_paths = [''src''], exclude = [], out_file = []\<rparr>,
       log_filter_warning = True, out = []\<rparr>)"
  by (simp add: tolower_C init_defs vm_upper_case_language_def)

lemma main_upper_case_language:
  "out (snd (main example_env (Parsed vm_upper_case_language))) =
     [Get_cfg ''gardener.conf'', Supports_language ''c'', Get_file_detection ''c'',
      File_Detector_new ''c'' [] [''src''] (- 1), File_Detector_get]"
  unfolding main_def init_upper_case_language by (simp add: main_defs)

lemma init_threads_include:
  "init_options example_env (Parsed vm_threads_include) world0 =
     (Returned 0,
      \<lparr>opts = \<lparr>no_threads = 8, recursive_limit = - 1, language = ''c'',
                config_path = ''gardener.conf'', format = ''dot'',
                include_paths = [''/usr/include''],
                process_paths = [''src''], exclude = [], out_file = []\<rparr>,
       log_filter_warning = True, out = []\<rparr>)"
  by (simp add: init_defs vm_defs)

lemma init_out_file_format:
  "init_options example_env (Parsed vm_out_file_format) world0 =
     (Returned 0,
      \<lparr>opts = \<lparr>no_threads = 2, recursive_limit = - 1, language = ''c'',
                config_path = ''gardener.conf'', format = ''dot'', include_paths = [],
                process_paths = [''src''], exclude = [], out_file = ''graph.dot''\<rparr>,
       log_filter_warning = True, out = []\<rparr>)"
  by (simp add: init_defs vm_defs)

lemma init_negative_threads:
  "init_options example_env (Parsed vm_negative_threads) world0 =
     (Returned 0,
      \<lparr>opts = \<lparr>no_threads = - 1, recursive_limit = - 1, language = ''c'',
                config_path = ''gardener.conf'', format = ''dot'', include_paths = [],
                process_paths = [''src''], exclude = [], out_file = []\<rparr>,
       log_filter_warning = True, out = []\<rparr>)"
  by (simp add: init_defs vm_defs)

subsection \<open>Fatal configuration errors\<close>

text \<open>
  C1, as amended. A fatal configuration error, that is a config file that does not
  exist or a language that the configuration does not support, aborts the run: \<open>main\<close>
  returns a non-zero value and has constructed no \<open>File_Detector\<close> and started no
  traversal. When neither \<open>--help\<close> nor \<open>--version\<close> is given, \<open>main\<close> has printed an
  error message on \<open>cerr\<close> and returns -1; with one of them, what it has printed last
  is their output on \<open>cout\<close>. When the run reaches the check of the config file, the
  only thing \<open>main\<close> does is print \<open>Error: config file ... not found.\<close>, so no
  \<open>Config\<close> is constructed either; when \<open>init_options\<close> succeeds, the \<open>Config\<close> is the
  only component constructed and the last thing \<open>main\<close> does is print
  \<open>Error: Language ... not supported.\<close>
\<close>

theorem fatal_configuration_error_aborts:
  fixes E :: "('cfg, 'rules) env"
  assumes cp: "cp = (case vm_config vm of Some c \<Rightarrow> c | None \<Rightarrow> GARDENER_CONFIG_PATH E)"
    and lang: "lang = (case vm_language vm of Some l \<Rightarrow> map tolower l | None \<Rightarrow> ''c'')"
    and err: "\<not> fs_exists E cp \<or> \<not> supports_language E (get_cfg E cp) lang"
  shows "(\<exists>n. fst (main E (Parsed vm)) = Returned n \<and> n \<noteq> 0)
    \<and> (\<forall>e \<in> set (out (snd (main E (Parsed vm)))). \<not> is_detector_event e)
    \<and> out (snd (main E (Parsed vm))) \<noteq> []
    \<and> (\<exists>m. last (out (snd (main E (Parsed vm)))) = Cerr m
           \<or> last (out (snd (main E (Parsed vm)))) = Cout m)
    \<and> (\<not> vm_help vm \<and> \<not> vm_version vm \<longrightarrow>
          fst (main E (Parsed vm)) = Returned (- 1)
          \<and> (\<exists>m. last (out (snd (main E (Parsed vm)))) = Cerr m))
    \<and> (\<not> vm_help vm \<and> \<not> vm_version vm \<and> vm_process_path vm \<noteq> None \<and> \<not> fs_exists E cp \<longrightarrow>
          out (snd (main E (Parsed vm)))
            = [Cerr (''Error: config file '' @ cp @ '' not found.'' @ endl)])
    \<and> (fst (init_options E (Parsed vm) world0) = Returned 0 \<longrightarrow>
          Get_cfg cp \<in> set (out (snd (main E (Parsed vm))))
          \<and> last (out (snd (main E (Parsed vm))))
              = Cerr (''Error: Language '' @ lang @ '' not supported.'' @ endl))"
proof -
  let ?m = "main E (Parsed vm)"
  obtain r w where rw: "init_options E (Parsed vm) world0 = (r, w)"
    by (cases "init_options E (Parsed vm) (world0 :: 'rules world)")
  show ?thesis
  proof (cases "r = Returned 0")
    case False
    then have m: "?m = (r, w)" using rw by (rule main_init_failed[rotated])
    from init_options_parsed_returns[OF rw] obtain n where n: "r = Returned n" by blast
    with init_options_out[OF rw] False
    have o: "n \<noteq> 0" "(\<exists>m. out w = [Cout m]) \<or> (\<exists>m. out w = [Cerr m])" by auto
    have c5: "\<not> vm_help vm \<and> \<not> vm_version vm \<longrightarrow>
          fst ?m = Returned (- 1) \<and> (\<exists>m. last (out (snd ?m)) = Cerr m)"
      using init_options_failure_cerr[OF _ _ rw False] m by auto
    have c6: "\<not> vm_help vm \<and> \<not> vm_version vm \<and> vm_process_path vm \<noteq> None \<and> \<not> fs_exists E cp \<longrightarrow>
          out (snd ?m) = [Cerr (''Error: config file '' @ cp @ '' not found.'' @ endl)]"
      using init_options_config_missing(2)[of vm E] rw m cp by auto
    have c7: "fst (init_options E (Parsed vm) (world0 :: 'rules world)) \<noteq> Returned 0"
      using rw False by simp
    from m n o c5 c6 c7 show ?thesis by auto
  next
    case True
    with rw have ok: "init_options E (Parsed vm) world0 = (Returned 0, w)" by simp
    note f = init_options_ok[OF ok]
    have cpw: "config_path (opts w) = cp" and lw: "language (opts w) = lang"
      using f(4,6) cp lang by simp_all
    have uns: "\<not> supports_language E (get_cfg E (config_path (opts w))) (language (opts w))"
      using err f(5) cpw lw by auto
    from main_init_ok[OF ok] uns f(13) cpw lw obtain ls where
      ls: "\<forall>e\<in>set ls. is_log e" and r: "fst ?m = Returned (- 1)" and
      o: "out (snd ?m) = ls @ [Get_cfg cp, Supports_language lang,
             Cerr (''Error: Language '' @ lang @ '' not supported.'' @ endl)]"
      by auto
    have "\<forall>e\<in>set ls. \<not> is_detector_event e"
      using ls is_log_not_other by blast
    moreover have "fs_exists E cp" using f(5) cpw by simp
    ultimately show ?thesis using r o f(1,2) by auto
  qed
qed

text \<open>
  The claim without the amendment fails at \<open>--help -l D -c missing.conf\<close>: the config
  file is missing and the language unsupported, and \<open>main\<close> prints the usage on \<open>cout\<close>
  and returns 1, without any error message.
\<close>

theorem fatal_configuration_error_counterexample:
  "\<not> fs_exists example_env ''missing.conf''
   \<and> \<not> supports_language example_env (get_cfg example_env ''missing.conf'') ''d''
   \<and> vm_config vm_help_bad_configuration = Some ''missing.conf''
   \<and> vm_language vm_help_bad_configuration = Some ''D''
   \<and> map tolower ''D'' = ''d''
   \<and> fst (main example_env (Parsed vm_help_bad_configuration)) = Returned 1
   \<and> out (snd (main example_env (Parsed vm_help_bad_configuration))) = [Cout (''Options'' @ endl)]"
proof -
  have i: "init_options example_env (Parsed vm_help_bad_configuration) world0 =
     (Returned 1, emit (Cout (desc example_env @ endl)) (set_defaults example_env world0))"
    by (simp add: init_options_def Let_def vm_help_bad_configuration_def)
  have m: "fst (main example_env (Parsed vm_help_bad_configuration)) = Returned 1"
    "out (snd (main example_env (Parsed vm_help_bad_configuration))) = [Cout (''Options'' @ endl)]"
    unfolding main_def i by (simp_all add: out_emit_defaults) (simp add: example_env_def)
  have e: "\<not> fs_exists example_env ''missing.conf''"
    "\<not> supports_language example_env (get_cfg example_env ''missing.conf'') ''d''"
    by (simp_all add: example_env_def)
  have v: "vm_config vm_help_bad_configuration = Some ''missing.conf''"
    "vm_language vm_help_bad_configuration = Some ''D''"
    by (simp_all add: vm_help_bad_configuration_def)
  from m e v show ?thesis by (simp add: tolower_D)
qed

text \<open>
  Both kinds of error in the example installation: the language \<open>D\<close>, which the
  configuration does not know, and the config file \<open>missing.conf\<close>.
\<close>

theorem fatal_configuration_error_aborts_witness:
  "\<not> supports_language example_env (get_cfg example_env ''gardener.conf'') ''d''
   \<and> fst (main example_env (Parsed vm_unsupported_language)) = Returned (- 1)
   \<and> Get_cfg ''gardener.conf'' \<in> set (out (snd (main example_env (Parsed vm_unsupported_language))))
   \<and> last (out (snd (main example_env (Parsed vm_unsupported_language))))
       = Cerr (''Error: Language d not supported.'' @ endl)
   \<and> \<not> fs_exists example_env ''missing.conf''
   \<and> fst (main example_env (Parsed vm_missing_config)) = Returned (- 1)
   \<and> out (snd (main example_env (Parsed vm_missing_config)))
       = [Cerr (''Error: config file missing.conf not found.'' @ endl)]"
proof -
  have c1: "''gardener.conf'' = (case vm_config vm_unsupported_language of Some c \<Rightarrow> c
              | None \<Rightarrow> GARDENER_CONFIG_PATH example_env)"
    by (simp add: vm_defs vm_src_def vm_none_def example_env_def)
  have l1: "''d'' = (case vm_language vm_unsupported_language of Some l \<Rightarrow> map tolower l
              | None \<Rightarrow> ''c'')"
    by (simp add: vm_defs tolower_D)
  have u1: "\<not> supports_language example_env (get_cfg example_env ''gardener.conf'') ''d''"
    by (simp add: example_env_def)
  have i1: "fst (init_options example_env (Parsed vm_unsupported_language) world0) = Returned 0"
    by (simp add: init_defs vm_defs tolower_D)
  have p1: "\<not> vm_help vm_unsupported_language" "\<not> vm_version vm_unsupported_language"
    by (simp_all add: vm_defs vm_src_def vm_none_def)
  note t1 = fatal_configuration_error_aborts[OF c1 l1 disjI2[OF u1]]
  have c2: "''missing.conf'' = (case vm_config vm_missing_config of Some c \<Rightarrow> c
              | None \<Rightarrow> GARDENER_CONFIG_PATH example_env)"
    by (simp add: vm_defs)
  have u2: "\<not> fs_exists example_env ''missing.conf''"
    by (simp add: example_env_def)
  have p2: "\<not> vm_help vm_missing_config" "\<not> vm_version vm_missing_config"
    "vm_process_path vm_missing_config \<noteq> None"
    by (simp_all add: vm_defs vm_src_def vm_none_def)
  note t2 = fatal_configuration_error_aborts[OF c2 refl disjI1[OF u2]]
  from t1 i1 u1 p1 t2 p2 u2 show ?thesis by simp
qed

subsection \<open>Which run parameters reach the scanning run\<close>

text \<open>
  C2. The claim wants every run parameter to drive the scanning run, the thread count
  and the include search paths in particular. In the code they stop in \<open>opts\<close>: the
  command line with \<open>--threads=8 -I /usr/include\<close> and the one without them make
  \<open>main\<close> do exactly the same things, the \<open>File_Detector\<close> being constructed from the
  rule set, the exclude patterns, the process paths and the recursion limit only
  (\<open>file_detector_arguments\<close> holds this for every command line).
\<close>

theorem threads_and_include_paths_not_passed:
  "no_threads (opts (snd (main example_env (Parsed vm_threads_include)))) = 8
   \<and> include_paths (opts (snd (main example_env (Parsed vm_threads_include)))) = [''/usr/include'']
   \<and> no_threads (opts (snd (main example_env (Parsed vm_src)))) = 2
   \<and> include_paths (opts (snd (main example_env (Parsed vm_src)))) = []
   \<and> out (snd (main example_env (Parsed vm_threads_include)))
       = [Get_cfg ''gardener.conf'', Supports_language ''c'', Get_file_detection ''c'',
          File_Detector_new ''c'' [] [''src''] (- 1), File_Detector_get]
   \<and> out (snd (main example_env (Parsed vm_threads_include)))
       = out (snd (main example_env (Parsed vm_src)))"
proof -
  have "main example_env (Parsed vm_threads_include) =
     (Returned 0,
      \<lparr>opts = \<lparr>no_threads = 8, recursive_limit = - 1, language = ''c'',
                config_path = ''gardener.conf'', format = ''dot'',
                include_paths = [''/usr/include''],
                process_paths = [''src''], exclude = [], out_file = []\<rparr>,
       log_filter_warning = True,
       out = [Get_cfg ''gardener.conf'', Supports_language ''c'', Get_file_detection ''c'',
              File_Detector_new ''c'' [] [''src''] (- 1), File_Detector_get]\<rparr>)"
    unfolding main_def init_threads_include by (simp add: main_defs)
  then show ?thesis by (simp add: main_src)
qed

subsection \<open>What happens after the scanning run\<close>

text \<open>
  C3. The claim wants the finished graph to be rendered in the chosen format and
  written to the configured destination once \<open>detector.get()\<close> has returned. In the
  code, \<open>main\<close> called with \<open>-o graph.dot -f dot src\<close> stores both options, runs the
  detector and returns 0: \<open>detector.get()\<close> is the last thing it does, and it has
  written nothing.
\<close>

theorem graph_is_not_serialized:
  "main example_env (Parsed vm_out_file_format) =
     (Returned 0,
      \<lparr>opts = \<lparr>no_threads = 2, recursive_limit = - 1, language = ''c'',
                config_path = ''gardener.conf'', format = ''dot'', include_paths = [],
                process_paths = [''src''], exclude = [], out_file = ''graph.dot''\<rparr>,
       log_filter_warning = True,
       out = [Get_cfg ''gardener.conf'', Supports_language ''c'', Get_file_detection ''c'',
              File_Detector_new ''c'' [] [''src''] (- 1), File_Detector_get]\<rparr>)"
  unfolding main_def init_out_file_format by (simp add: main_defs)

subsection \<open>The lower bound of the thread count\<close>

text \<open>
  C4. The claim wants a thread count below 1 to be rejected. The code compares with 0
  only: with \<open>--threads=-1\<close>, \<open>init_options\<close> returns 0 and leaves -1 in
  \<open>opts.no_threads\<close>, and \<open>main\<close> runs the detector and returns 0.
\<close>

theorem negative_thread_count_accepted:
  "vm_threads vm_negative_threads = Some (- 1)
   \<and> fst (init_options example_env (Parsed vm_negative_threads) world0) = Returned 0
   \<and> no_threads (opts (snd (init_options example_env (Parsed vm_negative_threads) world0))) = - 1
   \<and> fst (main example_env (Parsed vm_negative_threads)) = Returned 0
   \<and> out (snd (main example_env (Parsed vm_negative_threads)))
       = [Get_cfg ''gardener.conf'', Supports_language ''c'', Get_file_detection ''c'',
          File_Detector_new ''c'' [] [''src''] (- 1), File_Detector_get]"
proof -
  have "main example_env (Parsed vm_negative_threads) =
     (Returned 0,
      \<lparr>opts = \<lparr>no_threads = - 1, recursive_limit = - 1, language = ''c'',
                config_path = ''gardener.conf'', format = ''dot'', include_paths = [],
                process_paths = [''src''], exclude = [], out_file = []\<rparr>,
       log_filter_warning = True,
       out = [Get_cfg ''gardener.conf'', Supports_language ''c'', Get_file_detection ''c'',
              File_Detector_new ''c'' [] [''src''] (- 1), File_Detector_get]\<rparr>)"
    unfolding main_def init_negative_threads by (simp add: main_defs)
  moreover have "vm_threads vm_negative_threads = Some (- 1)" by (simp add: vm_defs)
  ultimately show ?thesis by (simp add: init_negative_threads)
qed

subsection \<open>Case normalisation of the language name\<close>

text \<open>
  C5. A language name given on the command line is converted to lower case before
  \<open>main\<close> asks \<open>supports_language\<close>: every name that \<open>main\<close> passes to
  \<open>supports_language\<close> is free of the upper-case letters \<open>A\<close> to \<open>Z\<close>, and when the
  user supplied the name \<open>L\<close>, the name passed is \<open>L\<close> with \<open>tolower\<close> applied to
  each character.
\<close>

theorem language_lower_cased_before_lookup:
  fixes E :: "('cfg, 'rules) env"
  shows "(\<forall>e \<in> set (out (snd (main E cmd))). \<forall>l. e = Supports_language l \<longrightarrow>
            (\<forall>c \<in> set l. \<not> isupper c))
       \<and> (\<forall>vm L l. cmd = Parsed vm \<and> vm_language vm = Some L
            \<and> Supports_language l \<in> set (out (snd (main E cmd))) \<longrightarrow> l = map tolower L)"
proof (intro conjI ballI allI impI)
  fix e l c
  assume "e \<in> set (out (snd (main E cmd)))" "e = Supports_language l" "c \<in> set l"
  then have "Supports_language l \<in> set (out (snd (main E cmd)))" by simp
  from main_supports_language_event[OF this] obtain vm w where
    vm: "cmd = Parsed vm" and ok: "init_options E (Parsed vm) world0 = (Returned 0, w)"
    and l: "l = language (opts w)" by auto
  have "l = (case vm_language vm of Some L \<Rightarrow> map tolower L | None \<Rightarrow> ''c'')"
    using init_options_ok(6)[OF ok] l by simp
  with \<open>c \<in> set l\<close> have "c = CHR ''c'' \<or> (\<exists>x. c = tolower x)"
    by (auto split: option.splits)
  then show "\<not> isupper c"
  proof
    assume "c = CHR ''c''" then show ?thesis by (simp add: isupper_def)
  next
    assume "\<exists>x. c = tolower x" then show ?thesis using not_isupper_tolower by blast
  qed
next
  fix vm L l
  assume a: "cmd = Parsed vm \<and> vm_language vm = Some L
            \<and> Supports_language l \<in> set (out (snd (main E cmd)))"
  from main_supports_language_event[of l E cmd] a obtain w where
    ok: "init_options E (Parsed vm) world0 = (Returned 0, w)"
    and l: "l = language (opts w)" by auto
  show "l = map tolower L" using init_options_ok(6)[OF ok] l a by simp
qed

theorem language_lower_cased_before_lookup_witness:
  "Supports_language ''c'' \<in> set (out (snd (main example_env (Parsed vm_upper_case_language))))
   \<and> vm_language vm_upper_case_language = Some ''C''
   \<and> \<not> isupper CHR ''c'' \<and> ''c'' = map tolower ''C''"
proof -
  have ev: "Supports_language ''c''
              \<in> set (out (snd (main example_env (Parsed vm_upper_case_language))))"
    by (simp add: main_upper_case_language)
  have l: "vm_language vm_upper_case_language = Some ''C''"
    by (simp add: vm_upper_case_language_def)
  from language_lower_cased_before_lookup[of example_env "Parsed vm_upper_case_language"]
  have "\<forall>c \<in> set ''c''. \<not> isupper c" "''c'' = map tolower ''C''"
    using ev l by blast+
  with ev l show ?thesis by simp
qed

subsection \<open>Default values of the options\<close>

text \<open>
  C8. An option that is absent from the command line keeps its default in \<open>opts\<close>:
  2 worker threads, recursion limit -1, language \<open>c\<close>, format \<open>dot\<close>, an empty name of
  the output file. With a process path, an existing config file and none of these
  options, \<open>init_options\<close> returns 0 and \<open>main\<close> goes on with exactly these values:
  it asks for the language \<open>c\<close> and, when that is supported, constructs the
  \<open>File_Detector\<close> with recursion limit -1 and returns 0.
\<close>

theorem defaults_when_options_absent:
  fixes E :: "('cfg, 'rules) env"
  assumes cp: "cp = (case vm_config vm of Some c \<Rightarrow> c | None \<Rightarrow> GARDENER_CONFIG_PATH E)"
    and i: "i = init_options E (Parsed vm) (world0 :: 'rules world)"
  shows "(vm_threads vm = None \<longrightarrow> no_threads (opts (snd i)) = 2)
    \<and> (vm_recursive_limit vm = None \<longrightarrow> recursive_limit (opts (snd i)) = - 1)
    \<and> (vm_language vm = None \<longrightarrow> language (opts (snd i)) = ''c'')
    \<and> (vm_format vm = None \<longrightarrow> format (opts (snd i)) = ''dot'')
    \<and> (vm_out_file vm = None \<longrightarrow> out_file (opts (snd i)) = [])
    \<and> (\<not> vm_help vm \<and> \<not> vm_version vm \<and> vm_process_path vm = Some pp \<and> fs_exists E cp
         \<and> vm_threads vm = None \<and> vm_recursive_limit vm = None \<and> vm_language vm = None
         \<and> vm_format vm = None \<and> vm_out_file vm = None \<longrightarrow>
           fst i = Returned 0
           \<and> opts (snd (main E (Parsed vm))) = opts (snd i)
           \<and> Supports_language ''c'' \<in> set (out (snd (main E (Parsed vm))))
           \<and> (supports_language E (get_cfg E cp) ''c'' \<longrightarrow>
                fst (main E (Parsed vm)) = Returned 0
                \<and> File_Detector_new (get_file_detection E (get_cfg E cp) ''c'')
                     (exclude (opts (snd i))) pp (- 1)
                   \<in> set (out (snd (main E (Parsed vm))))))"
proof -
  have d: "vm_threads vm = None \<longrightarrow> no_threads (opts (snd i)) = 2"
    "vm_recursive_limit vm = None \<longrightarrow> recursive_limit (opts (snd i)) = - 1"
    "vm_language vm = None \<longrightarrow> language (opts (snd i)) = ''c''"
    "vm_format vm = None \<longrightarrow> format (opts (snd i)) = ''dot''"
    "vm_out_file vm = None \<longrightarrow> out_file (opts (snd i)) = []"
    unfolding i using init_options_opts[of vm E] by blast+
  have r: "fst i = Returned 0
           \<and> opts (snd (main E (Parsed vm))) = opts (snd i)
           \<and> Supports_language ''c'' \<in> set (out (snd (main E (Parsed vm))))
           \<and> (supports_language E (get_cfg E cp) ''c'' \<longrightarrow>
                fst (main E (Parsed vm)) = Returned 0
                \<and> File_Detector_new (get_file_detection E (get_cfg E cp) ''c'')
                     (exclude (opts (snd i))) pp (- 1)
                   \<in> set (out (snd (main E (Parsed vm)))))"
    if a: "\<not> vm_help vm" "\<not> vm_version vm" "vm_process_path vm = Some pp" "fs_exists E cp"
      "vm_threads vm = None" "vm_recursive_limit vm = None" "vm_language vm = None"
      "vm_format vm = None" "vm_out_file vm = None"
  proof -
    have r0: "fst i = Returned 0"
      unfolding i using a cp by (intro init_options_returns_0[where pp = pp]) simp_all
    then have ok: "init_options E (Parsed vm) world0 = (Returned 0, snd i)"
      unfolding i by (metis prod.collapse)
    note f = init_options_ok[OF ok]
    have w: "config_path (opts (snd i)) = cp" "language (opts (snd i)) = ''c''"
      "process_paths (opts (snd i)) = pp" "recursive_limit (opts (snd i)) = - 1"
      using f(3,4,6,8) a cp by simp_all
    from main_init_ok[OF ok] show ?thesis
      unfolding w using r0 by (auto split: if_splits)
  qed
  from d r show ?thesis by blast
qed

theorem defaults_when_options_absent_witness:
  "fst (init_options example_env (Parsed vm_src) world0) = Returned 0
   \<and> no_threads (opts (snd (init_options example_env (Parsed vm_src) world0))) = 2
   \<and> recursive_limit (opts (snd (init_options example_env (Parsed vm_src) world0))) = - 1
   \<and> language (opts (snd (init_options example_env (Parsed vm_src) world0))) = ''c''
   \<and> format (opts (snd (init_options example_env (Parsed vm_src) world0))) = ''dot''
   \<and> out_file (opts (snd (init_options example_env (Parsed vm_src) world0))) = []
   \<and> fst (main example_env (Parsed vm_src)) = Returned 0
   \<and> File_Detector_new ''c'' [] [''src''] (- 1) \<in> set (out (snd (main example_env (Parsed vm_src))))"
proof -
  have c: "''gardener.conf'' = (case vm_config vm_src of Some c \<Rightarrow> c
              | None \<Rightarrow> GARDENER_CONFIG_PATH example_env)"
    by (simp add: vm_src_def vm_none_def example_env_def)
  have a: "\<not> vm_help vm_src" "\<not> vm_version vm_src" "vm_process_path vm_src = Some [''src'']"
    "vm_threads vm_src = None" "vm_recursive_limit vm_src = None" "vm_language vm_src = None"
    "vm_format vm_src = None" "vm_out_file vm_src = None"
    by (simp_all add: vm_src_def vm_none_def)
  have e: "fs_exists example_env ''gardener.conf''"
    "supports_language example_env (get_cfg example_env ''gardener.conf'') ''c''"
    "get_file_detection example_env (get_cfg example_env ''gardener.conf'') ''c'' = ''c''"
    by (simp_all add: example_env_def)
  have x: "exclude (opts (snd (init_options example_env (Parsed vm_src) world0))) = []"
    by (simp add: init_src)
  from defaults_when_options_absent[OF c refl, where pp = "[''src'']"] a e x
  show ?thesis by simp
qed

subsection \<open>No process path\<close>

text \<open>
  C9, as amended. Without a process path \<open>main\<close> returns a non-zero value and
  constructs neither the \<open>Config\<close> nor the \<open>File_Detector\<close>; when moreover neither
  \<open>--help\<close> nor \<open>--version\<close> is given, \<open>init_options\<close> prints \<open>No input provided!\<close>,
  an empty line and the usage description on \<open>cerr\<close> and returns -1, which \<open>main\<close>
  returns in turn.
\<close>

theorem no_process_path_aborts:
  fixes E :: "('cfg, 'rules) env"
  assumes "vm_process_path vm = None"
  shows "(\<exists>n. fst (main E (Parsed vm)) = Returned n \<and> n \<noteq> 0)
    \<and> (\<forall>e \<in> set (out (snd (main E (Parsed vm)))).
          \<not> is_config_event e \<and> \<not> is_detector_event e)
    \<and> (\<not> vm_help vm \<and> \<not> vm_version vm \<longrightarrow>
          fst (init_options E (Parsed vm) (world0 :: 'rules world)) = Returned (- 1)
          \<and> out (snd (init_options E (Parsed vm) (world0 :: 'rules world)))
              = [Cerr (''No input provided!'' @ endl @ endl @ desc E @ endl)]
          \<and> main E (Parsed vm) = init_options E (Parsed vm) world0)"
proof -
  note i = init_options_no_process_path[OF assms, of E world0]
  have f: "fst (init_options E (Parsed vm) (world0 :: 'rules world)) \<noteq> Returned 0"
    by (simp add: i)
  note m = main_eq_init_on_failure[OF f]
  show ?thesis
    unfolding m by (simp add: i out_emit_defaults)
qed

theorem no_process_path_counterexample:
  "vm_process_path vm_help_only = None
   \<and> fst (init_options example_env (Parsed vm_help_only) world0) = Returned 1
   \<and> fst (init_options example_env (Parsed vm_help_only) world0) \<noteq> Returned (- 1)
   \<and> out (snd (init_options example_env (Parsed vm_help_only) world0)) = [Cout (''Options'' @ endl)]"
  by (simp add: init_defs vm_defs)

theorem no_process_path_aborts_witness:
  "vm_process_path vm_none = None
   \<and> fst (main example_env (Parsed vm_none)) = Returned (- 1)
   \<and> out (snd (main example_env (Parsed vm_none)))
       = [Cerr (''No input provided!'' @ endl @ endl @ ''Options'' @ endl)]"
proof -
  have a: "vm_process_path vm_none = None" "\<not> vm_help vm_none" "\<not> vm_version vm_none"
    by (simp_all add: vm_none_def)
  have d: "desc example_env = ''Options''" by (simp add: example_env_def)
  from no_process_path_aborts[OF a(1), of example_env] a d show ?thesis by simp
qed

subsection \<open>The informational options\<close>

text \<open>
  C10, as amended. \<open>--help\<close> makes \<open>main\<close> return 1 after printing the usage
  description; \<open>--version\<close> without \<open>--help\<close> makes \<open>main\<close> return -1 after printing
  the version; neither runs a scan. Whenever \<open>main\<close> returns 0, the last thing it did
  was \<open>detector.get()\<close>.
\<close>

theorem informational_options_exit_codes:
  fixes E :: "('cfg, 'rules) env"
  shows "(vm_help vm \<longrightarrow>
            fst (main E (Parsed vm)) = Returned 1
            \<and> out (snd (main E (Parsed vm))) = [Cout (desc E @ endl)])
    \<and> (\<not> vm_help vm \<and> vm_version vm \<longrightarrow>
            fst (main E (Parsed vm)) = Returned (- 1)
            \<and> out (snd (main E (Parsed vm)))
                = [Cout (''Include Gardener Version '' @ GARDENER_VERSION E @ endl)])
    \<and> (fst (main E cmd) = Returned 0 \<longrightarrow>
            out (snd (main E cmd)) \<noteq> []
            \<and> last (out (snd (main E cmd))) = File_Detector_get)"
proof (intro conjI impI)
  assume h: "vm_help vm"
  have f: "fst (init_options E (Parsed vm) (world0 :: 'rules world)) \<noteq> Returned 0"
    by (simp add: init_options_help_version(1)[OF h])
  show "fst (main E (Parsed vm)) = Returned 1"
    "out (snd (main E (Parsed vm))) = [Cout (desc E @ endl)]"
    unfolding main_eq_init_on_failure[OF f]
    by (simp_all add: init_options_help_version(1)[OF h] out_emit_defaults)
next
  assume "\<not> vm_help vm \<and> vm_version vm"
  then have h: "\<not> vm_help vm" "vm_version vm" by simp_all
  have f: "fst (init_options E (Parsed vm) (world0 :: 'rules world)) \<noteq> Returned 0"
    by (simp add: init_options_help_version(2)[OF h])
  show "fst (main E (Parsed vm)) = Returned (- 1)"
    "out (snd (main E (Parsed vm)))
       = [Cout (''Include Gardener Version '' @ GARDENER_VERSION E @ endl)]"
    unfolding main_eq_init_on_failure[OF f]
    by (simp_all add: init_options_help_version(2)[OF h] out_emit_defaults)
next
  assume r: "fst (main E cmd) = Returned 0"
  obtain r' w where rw: "init_options E cmd world0 = (r', w)"
    by (cases "init_options E cmd (world0 :: 'rules world)")
  have ok: "init_options E cmd world0 = (Returned 0, w)"
  proof (rule ccontr)
    assume "init_options E cmd world0 \<noteq> (Returned 0, w)"
    with rw have "r' \<noteq> Returned 0" by auto
    from main_init_failed[OF rw this] r this show False by simp
  qed
  from main_init_ok[OF ok] r
  show "out (snd (main E cmd)) \<noteq> []" "last (out (snd (main E cmd))) = File_Detector_get"
    by (auto split: if_splits)
qed

theorem informational_options_counterexample:
  "vm_version vm_help_version
   \<and> fst (main example_env (Parsed vm_help_version)) = Returned 1
   \<and> fst (main example_env (Parsed vm_help_version)) \<noteq> Returned (- 1)"
proof -
  have i: "init_options example_env (Parsed vm_help_version) world0 =
     (Returned 1, emit (Cout (desc example_env @ endl)) (set_defaults example_env world0))"
    by (simp add: init_options_def Let_def vm_defs)
  show ?thesis unfolding main_def i by (simp add: vm_defs)
qed

theorem informational_options_exit_codes_witness:
  "vm_help vm_help_only
   \<and> fst (main example_env (Parsed vm_help_only)) = Returned 1
   \<and> out (snd (main example_env (Parsed vm_help_only))) = [Cout (''Options'' @ endl)]
   \<and> \<not> vm_help vm_version_only \<and> vm_version vm_version_only
   \<and> fst (main example_env (Parsed vm_version_only)) = Returned (- 1)
   \<and> out (snd (main example_env (Parsed vm_version_only)))
       = [Cout (''Include Gardener Version 1.0.0'' @ endl)]
   \<and> fst (main example_env (Parsed vm_src)) = Returned 0
   \<and> last (out (snd (main example_env (Parsed vm_src)))) = File_Detector_get"
proof -
  have a: "vm_help vm_help_only" "\<not> vm_help vm_version_only" "vm_version vm_version_only"
    by (simp_all add: vm_defs vm_none_def)
  have d: "desc example_env = ''Options''" "GARDENER_VERSION example_env = ''1.0.0''"
    by (simp_all add: example_env_def)
  have r: "fst (main example_env (Parsed vm_src)) = Returned 0" by (simp add: main_src)
  from informational_options_exit_codes[of vm_help_only example_env "Parsed vm_src"]
    informational_options_exit_codes[of vm_version_only example_env "Parsed vm_src"]
    a d r
  show ?thesis by simp
qed

section \<open>Properties of the scanning core as specified\<close>

subsection \<open>Resolution of a quoted reference\<close>

lemma first_match_None:
  "first_match fs dirs R = None
     \<longleftrightarrow> (\<forall>dir \<in> set dirs. \<not> is_regular_file fs (append_path fs dir R))"
  by (induction dirs) auto

lemma first_match_Some:
  "first_match fs dirs R = Some p
     \<longleftrightarrow> (\<exists>i < length dirs.
            is_regular_file fs (append_path fs (dirs ! i) R)
            \<and> (\<forall>j < i. \<not> is_regular_file fs (append_path fs (dirs ! j) R))
            \<and> p = canonicalize fs (append_path fs (dirs ! i) R))"
proof (induction dirs)
  case Nil
  then show ?case by simp
next
  case (Cons dir dirs)
  show ?case
  proof (cases "is_regular_file fs (append_path fs dir R)")
    case True
    have "(\<exists>i < length (dir # dirs).
            is_regular_file fs (append_path fs ((dir # dirs) ! i) R)
            \<and> (\<forall>j < i. \<not> is_regular_file fs (append_path fs ((dir # dirs) ! j) R))
            \<and> p = canonicalize fs (append_path fs ((dir # dirs) ! i) R))
          \<longleftrightarrow> p = canonicalize fs (append_path fs dir R)"
    proof
      assume "\<exists>i < length (dir # dirs).
            is_regular_file fs (append_path fs ((dir # dirs) ! i) R)
            \<and> (\<forall>j < i. \<not> is_regular_file fs (append_path fs ((dir # dirs) ! j) R))
            \<and> p = canonicalize fs (append_path fs ((dir # dirs) ! i) R)"
      then obtain i where i: "\<forall>j < i. \<not> is_regular_file fs (append_path fs ((dir # dirs) ! j) R)"
        "p = canonicalize fs (append_path fs ((dir # dirs) ! i) R)" by blast
      have "i = 0"
      proof (rule ccontr)
        assume "i \<noteq> 0"
        then have "0 < i" by simp
        with i(1) True show False by auto
      qed
      with i(2) show "p = canonicalize fs (append_path fs dir R)" by simp
    next
      assume "p = canonicalize fs (append_path fs dir R)"
      with True show "\<exists>i < length (dir # dirs).
            is_regular_file fs (append_path fs ((dir # dirs) ! i) R)
            \<and> (\<forall>j < i. \<not> is_regular_file fs (append_path fs ((dir # dirs) ! j) R))
            \<and> p = canonicalize fs (append_path fs ((dir # dirs) ! i) R)"
        by (intro exI[of _ 0]) simp
    qed
    with True show ?thesis by auto
  next
    case False
    have "(\<exists>i < length (dir # dirs).
            is_regular_file fs (append_path fs ((dir # dirs) ! i) R)
            \<and> (\<forall>j < i. \<not> is_regular_file fs (append_path fs ((dir # dirs) ! j) R))
            \<and> p = canonicalize fs (append_path fs ((dir # dirs) ! i) R))
          \<longleftrightarrow> (\<exists>k < length dirs.
            is_regular_file fs (append_path fs (dirs ! k) R)
            \<and> (\<forall>j < k. \<not> is_regular_file fs (append_path fs (dirs ! j) R))
            \<and> p = canonicalize fs (append_path fs (dirs ! k) R))" (is "?L \<longleftrightarrow> ?M")
    proof
      assume ?L
      then obtain i where i: "i < length (dir # dirs)"
        "is_regular_file fs (append_path fs ((dir # dirs) ! i) R)"
        "\<forall>j < i. \<not> is_regular_file fs (append_path fs ((dir # dirs) ! j) R)"
        "p = canonicalize fs (append_path fs ((dir # dirs) ! i) R)" by blast
      from i(2) False obtain k where k: "i = Suc k" by (cases i) auto
      have "\<forall>j < k. \<not> is_regular_file fs (append_path fs (dirs ! j) R)"
      proof (intro allI impI)
        fix j assume "j < k"
        then have "Suc j < i" using k by simp
        with i(3) show "\<not> is_regular_file fs (append_path fs (dirs ! j) R)" by fastforce
      qed
      with i k show ?M by auto
    next
      assume ?M
      then obtain k where k: "k < length dirs"
        "is_regular_file fs (append_path fs (dirs ! k) R)"
        "\<forall>j < k. \<not> is_regular_file fs (append_path fs (dirs ! j) R)"
        "p = canonicalize fs (append_path fs (dirs ! k) R)" by blast
      have "\<forall>j < Suc k. \<not> is_regular_file fs (append_path fs ((dir # dirs) ! j) R)"
      proof (intro allI impI)
        fix j assume "j < Suc k"
        then show "\<not> is_regular_file fs (append_path fs ((dir # dirs) ! j) R)"
          using False k(3) by (cases j) auto
      qed
      with k show ?L by (intro exI[of _ "Suc k"]) simp
    qed
    with False Cons.IH show ?thesis by simp
  qed
qed

text \<open>
  C7. A quoted reference \<open>R\<close> from file \<open>F\<close> is tried in the directory containing
  \<open>F\<close> first and then in each include search path in the configured order: it resolves
  to \<open>p\<close> exactly when \<open>p\<close> is the canonical form of \<open>dir + R\<close> for the first
  directory \<open>dir\<close> in that order where \<open>dir + R\<close> is a regular file, and it is
  unresolved, keeping the literal \<open>R\<close>, exactly when no directory matches. In
  particular a match in the directory of \<open>F\<close> wins over every search path.
\<close>

theorem quoted_reference_resolution:
  assumes "dirs = parent_path fs F # include_search_paths"
  shows "(\<forall>p. resolve_quoted fs include_search_paths F R = Resolved p \<longleftrightarrow>
            (\<exists>i < length dirs.
               is_regular_file fs (append_path fs (dirs ! i) R)
               \<and> (\<forall>j < i. \<not> is_regular_file fs (append_path fs (dirs ! j) R))
               \<and> p = canonicalize fs (append_path fs (dirs ! i) R)))
       \<and> (resolve_quoted fs include_search_paths F R = Unresolved R \<longleftrightarrow>
            (\<forall>dir \<in> set dirs. \<not> is_regular_file fs (append_path fs dir R)))
       \<and> (\<forall>R'. resolve_quoted fs include_search_paths F R = Unresolved R' \<longrightarrow> R' = R)
       \<and> (is_regular_file fs (append_path fs (parent_path fs F) R) \<longrightarrow>
            resolve_quoted fs include_search_paths F R
              = Resolved (canonicalize fs (append_path fs (parent_path fs F) R)))"
proof -
  have a: "resolve_quoted fs include_search_paths F R = Resolved p \<longleftrightarrow>
             first_match fs dirs R = Some p" for p
    by (simp add: resolve_quoted_def assms split: option.split)
  have b: "resolve_quoted fs include_search_paths F R = Unresolved R' \<longleftrightarrow>
             first_match fs dirs R = None \<and> R' = R" for R'
    by (auto simp add: resolve_quoted_def assms split: option.split)
  show ?thesis
    unfolding a b first_match_Some first_match_None
    by (auto simp: assms)
qed

theorem quoted_reference_resolution_witness:
  "resolve_quoted example_fs [''inc''] ''a/b.h'' ''c.h'' = Resolved ''/root/a/c.h''
   \<and> is_regular_file example_fs (append_path example_fs ''inc'' ''c.h'')
   \<and> resolve_quoted example_fs [''inc''] ''a/b.h'' ''d.h'' = Resolved ''/root/inc/d.h''
   \<and> \<not> is_regular_file example_fs (append_path example_fs ''a'' ''d.h'')
   \<and> resolve_quoted example_fs [''inc''] ''a/b.h'' ''e.h'' = Unresolved ''e.h''"
proof -
  have d: "[''a'', ''inc''] = parent_path example_fs ''a/b.h'' # [''inc'']"
    by (simp add: example_fs_def)
  have c: "is_regular_file example_fs
             (append_path example_fs (parent_path example_fs ''a/b.h'') ''c.h'')"
    "is_regular_file example_fs (append_path example_fs ''inc'' ''c.h'')"
    "canonicalize example_fs
       (append_path example_fs (parent_path example_fs ''a/b.h'') ''c.h'') = ''/root/a/c.h''"
    by (simp_all add: example_fs_def)
  from quoted_reference_resolution[OF d, where R = "''c.h''"] c
  have r1: "resolve_quoted example_fs [''inc''] ''a/b.h'' ''c.h'' = Resolved ''/root/a/c.h''"
    by simp
  have "\<exists>i < length [''a'', ''inc''].
          is_regular_file example_fs (append_path example_fs ([''a'', ''inc''] ! i) ''d.h'')
          \<and> (\<forall>j < i. \<not> is_regular_file example_fs
                          (append_path example_fs ([''a'', ''inc''] ! j) ''d.h''))
          \<and> ''/root/inc/d.h''
               = canonicalize example_fs (append_path example_fs ([''a'', ''inc''] ! i) ''d.h'')"
    by (rule exI[of _ "Suc 0"]) (simp add: example_fs_def)
  with quoted_reference_resolution[OF d, where R = "''d.h''"]
  have r2: "resolve_quoted example_fs [''inc''] ''a/b.h'' ''d.h'' = Resolved ''/root/inc/d.h''"
    by blast
  have n2: "\<not> is_regular_file example_fs (append_path example_fs ''a'' ''d.h'')"
    by (simp add: example_fs_def)
  have "\<forall>dir \<in> set [''a'', ''inc''].
          \<not> is_regular_file example_fs (append_path example_fs dir ''e.h'')"
    by (simp add: example_fs_def)
  with quoted_reference_resolution[OF d, where R = "''e.h''"]
  have r3: "resolve_quoted example_fs [''inc''] ''a/b.h'' ''e.h'' = Unresolved ''e.h''"
    by blast
  from r1 c(2) r2 n2 r3 show ?thesis by simp
qed

subsection \<open>Independence of thread count and scheduling\<close>

lemma content_apply_op: "content (apply_op x g) = content_op x (content g)"
  by (cases x)
     (auto simp: content_def get_or_create_node_def add_edge_def fun_eq_iff
           split: option.splits)

lemma content_op_commute: "content_op x (content_op y c) = content_op y (content_op x c)"
  by (cases x; cases y; cases c) (auto simp: fun_eq_iff split: option.splits)

lemma content_fold: "content (fold apply_op xs g) = fold content_op xs (content g)"
  by (induction xs arbitrary: g) (simp_all add: content_apply_op)

lemma fold_content_op_perm:
  assumes "mset xs = mset ys"
  shows "fold content_op xs c = fold content_op ys c"
proof -
  have "fold content_op xs = fold content_op ys"
    by (rule fold_multiset_equiv) (auto simp: fun_eq_iff content_op_commute assms)
  then show ?thesis by simp
qed

lemma mset_concat_update:
  "i < length ws \<Longrightarrow>
     mset (concat (ws[i := x])) + mset (ws ! i) = mset (concat ws) + mset x"
proof (induction ws arbitrary: i)
  case Nil
  then show ?case by simp
next
  case (Cons w ws)
  show ?case
  proof (cases i)
    case 0
    then show ?thesis by simp
  next
    case (Suc k)
    with Cons.prems have "k < length ws" by simp
    from Cons.IH[OF this] Suc show ?thesis by (simp add: ac_simps)
  qed
qed

lemma step_invariant:
  assumes "shared p = fold apply_op done g0" and "mset done + pending p = M"
  shows "\<exists>done'. shared (step i p) = fold apply_op done' g0 \<and> mset done' + pending (step i p) = M"
proof (cases "i < length (workers p)")
  case False
  with assms show ?thesis by (auto simp: step_def)
next
  case True
  show ?thesis
  proof (cases "workers p ! i")
    case (Cons x rest)
    have s: "step i p = p\<lparr>workers := (workers p)[i := rest], shared := apply_op x (shared p)\<rparr>"
      using True Cons by (simp add: step_def)
    from mset_concat_update[OF True, of rest] Cons
    have e: "mset (concat (workers p)) = add_mset x (mset (concat ((workers p)[i := rest])))"
      by simp
    have "mset (done @ [x]) + pending (step i p) = M"
      using assms(2) by (simp add: s pending_def e)
    moreover have "shared (step i p) = fold apply_op (done @ [x]) g0"
      by (simp add: s assms(1))
    ultimately show ?thesis by blast
  next
    case Nil
    show ?thesis
    proof (cases "queue p")
      case Nil' : Nil
      with Nil True have "step i p = p" by (simp add: step_def)
      with assms show ?thesis by auto
    next
      case (Cons job q)
      have s: "step i p = p\<lparr>queue := q, workers := (workers p)[i := job]\<rparr>"
        using True Nil Cons by (simp add: step_def)
      from mset_concat_update[OF True, of job] Nil
      have "mset (concat ((workers p)[i := job])) = mset (concat (workers p)) + mset job"
        by simp
      then have "pending (step i p) = pending p"
        by (simp add: s pending_def Cons ac_simps)
      with assms show ?thesis by (auto simp: s)
    qed
  qed
qed

lemma steps_invariant:
  assumes "shared p = fold apply_op done g0" and "mset done + pending p = M"
  shows "\<exists>done'. shared (fold step sched p) = fold apply_op done' g0
           \<and> mset done' + pending (fold step sched p) = M"
  using assms
proof (induction sched arbitrary: p "done")
  case Nil
  then show ?case by auto
next
  case (Cons i sched)
  from step_invariant[OF Cons.prems, of i] obtain done' where
    "shared (step i p) = fold apply_op done' g0" "mset done' + pending (step i p) = M"
    by blast
  from Cons.IH[OF this] show ?case by simp
qed

lemma run_content:
  assumes "run n jobs sched = Some g"
  shows "content g = content (fold apply_op (concat jobs) empty_graph)"
proof -
  let ?p = "fold step sched (start n jobs)"
  from assms have fin: "finished ?p" and g: "g = shared ?p"
    by (auto simp: run_def Let_def split: if_splits)
  have "shared (start n jobs) = fold apply_op [] empty_graph"
    by (simp add: start_def)
  moreover have "mset [] + pending (start n jobs) = mset (concat jobs)"
    by (simp add: start_def pending_def)
  ultimately obtain dn where
    d: "shared ?p = fold apply_op dn empty_graph" "mset dn + pending ?p = mset (concat jobs)"
    using steps_invariant by blast
  from fin have "pending ?p = {#}" by (simp add: finished_def pending_def)
  with d(2) have "mset dn = mset (concat jobs)" by simp
  then have "fold content_op dn (content empty_graph)
             = fold content_op (concat jobs) (content empty_graph)"
    by (rule fold_content_op_perm)
  then show ?thesis by (simp add: g d(1) content_fold)
qed

text \<open>One worker alone finishes every list of jobs.\<close>

lemma worker_0_job:
  "fold step (replicate (length w) 0) \<lparr>queue = q, workers = w # idle, shared = g\<rparr>
     = \<lparr>queue = q, workers = [] # idle, shared = fold apply_op w g\<rparr>"
  by (induction w arbitrary: g) (simp_all add: step_def del: fold_replicate)

lemma worker_0_queue:
  "fold step (replicate (sequential_steps q) 0) \<lparr>queue = q, workers = [] # idle, shared = g\<rparr>
     = \<lparr>queue = [], workers = [] # idle, shared = fold apply_op (concat q) g\<rparr>"
proof (induction q arbitrary: g)
  case Nil
  then show ?case by simp
next
  case (Cons job q)
  have "fold step (replicate (sequential_steps (job # q)) 0)
          \<lparr>queue = job # q, workers = [] # idle, shared = g\<rparr>
        = fold step (replicate (sequential_steps q) 0)
            (fold step (replicate (length job) 0)
               (step 0 \<lparr>queue = job # q, workers = [] # idle, shared = g\<rparr>))"
    by (simp add: replicate_add del: fold_replicate)
  also have "step 0 \<lparr>queue = job # q, workers = [] # idle, shared = g\<rparr>
             = \<lparr>queue = q, workers = job # idle, shared = g\<rparr>"
    by (simp add: step_def)
  finally show ?case by (simp add: worker_0_job Cons.IH del: fold_replicate)
qed

lemma run_sequential:
  assumes "1 \<le> n"
  shows "run n jobs (replicate (sequential_steps jobs) 0)
           = Some (fold apply_op (concat jobs) empty_graph)"
proof -
  from assms obtain k where n: "n = Suc k" by (cases n) auto
  have "start n jobs = \<lparr>queue = jobs, workers = [] # replicate k [], shared = empty_graph\<rparr>"
    by (simp add: start_def n)
  then show ?thesis
    by (simp add: run_def worker_0_queue finished_def del: fold_replicate)
qed

text \<open>
  C6. For a fixed list of scheduled files, a run with at least one worker thread can
  always finish, and any two finished runs, whatever their numbers of worker threads
  and their scheduling orders, yield graphs with the same content: the same node keys,
  the same edges, and for every edge the same multiplicity and the same occurrences.
\<close>

theorem graph_content_invariant:
  "(1 \<le> n \<longrightarrow> (\<exists>sched g. run n jobs sched = Some g))
   \<and> (run n jobs sched = Some g \<and> run m jobs sched' = Some g' \<longrightarrow> content g = content g')"
  using run_sequential[of n jobs] run_content[of n jobs sched g] run_content[of m jobs sched' g']
  by auto

theorem graph_content_invariant_witness:
  "run 1 example_jobs one_worker_schedule \<noteq> None
   \<and> run 2 example_jobs two_worker_schedule \<noteq> None
   \<and> content (the (run 1 example_jobs one_worker_schedule))
       = content (the (run 2 example_jobs two_worker_schedule))
   \<and> fst (content (the (run 2 example_jobs two_worker_schedule)))
       = {''/root/a.c'', ''/root/b.c'', ''/root/common.h''}
   \<and> snd (content (the (run 2 example_jobs two_worker_schedule)))
         (''/root/b.c'', ''/root/common.h'')
       = Some (2, {#(''#include <common.h>'', 1), (''#include <common.h>'', 7)#})"
proof -
  have c: "fst (content (the (run 2 example_jobs two_worker_schedule)))
             = {''/root/a.c'', ''/root/b.c'', ''/root/common.h''}"
    "snd (content (the (run 2 example_jobs two_worker_schedule)))
         (''/root/b.c'', ''/root/common.h'')
       = Some (2, {#(''#include <common.h>'', 1), (''#include <common.h>'', 7)#})"
    by (simp_all add: run_def start_def step_def finished_def example_jobs_def content_def
          two_worker_schedule_def numeral_2_eq_2 add_edge_def get_or_create_node_def
          empty_graph_def insert_commute)
  have r1: "run 1 example_jobs one_worker_schedule \<noteq> None"
    by (simp add: run_def start_def step_def finished_def example_jobs_def
          one_worker_schedule_def)
  have r2: "run 2 example_jobs two_worker_schedule \<noteq> None"
    by (simp add: run_def start_def step_def finished_def example_jobs_def
          two_worker_schedule_def numeral_2_eq_2)
  from r1 obtain g1 where g1: "run 1 example_jobs one_worker_schedule = Some g1" by blast
  from r2 obtain g2 where g2: "run 2 example_jobs two_worker_schedule = Some g2" by blast
  from graph_content_invariant[of 1 example_jobs one_worker_schedule g1 2 two_worker_schedule g2]
    g1 g2
  have "content (the (run 1 example_jobs one_worker_schedule))
          = content (the (run 2 example_jobs two_worker_schedule))"
    by simp
  with r1 r2 c show ?thesis by simp
qed

end
